(* ===== verification/Prelude.thy ===== *)
theory Prelude
  imports Complex_Main "HOL-Library.Word" "HOL-Library.List_Lexorder" "HOL-Library.Multiset"
begin

text \<open>
  Shared vocabulary of the development. A JavaScript string is a sequence of UTF-16 code
  units, so it is modelled as a list of 16-bit words; \<open>===\<close> on strings is list equality
  and the default string comparison of \<open>Array.prototype.sort\<close> is the lexicographic order
  on code units (HOL-Library.List_Lexorder, where a proper prefix is smaller). The lemmas
  here are generic facts on lists used by several component theories.
\<close>

type_synonym code_unit = "16 word"
type_synonym jsstr = "code_unit list"

named_theorems dataset_defs "definitions of the constant records of the page's dataset"
named_theorems page_simps "evaluation rules for the page's derived values"

subsection \<open>Lexicographic order on lists of equal length\<close>

lemma snoc_less_snoc_same_length:
  fixes xs ys :: "'a::linorder list"
  assumes "length xs = length ys"
  shows "xs @ [a] < ys @ [b] \<longleftrightarrow> xs < ys \<or> (xs = ys \<and> a < b)"
  using assms
proof (induction xs arbitrary: ys)
  case Nil
  then show ?case by simp
next
  case (Cons x xs)
  then obtain y ys' where "ys = y # ys'" and "length xs = length ys'"
    by (cases ys) auto
  with Cons.IH show ?case by auto
qed

subsection \<open>Removing duplicates\<close>

lemma remdups_snoc: "remdups (ys @ [x]) = filter (\<lambda>y. y \<noteq> x) (remdups ys) @ [x]"
  by (induction ys) auto

subsection \<open>Filtering by a key\<close>

lemma length_filter_key_distinct:
  assumes "distinct (map g xs)"
  shows "length (filter (\<lambda>x. g x = k) xs) \<le> 1"
  using assms
proof (induction xs)
  case Nil
  then show ?case by simp
next
  case (Cons x xs)
  show ?case
  proof (cases "g x = k")
    case True
    with Cons.prems have "filter (\<lambda>y. g y = k) xs = []"
      by (fastforce simp: filter_empty_conv image_iff)
    with True show ?thesis by simp
  next
    case False
    with Cons show ?thesis by simp
  qed
qed

lemma filter_key_distinct_single:
  assumes "distinct (map g xs)" and "x \<in> set xs"
  shows "filter (\<lambda>y. g y = g x) xs = [x]"
  using assms
proof (induction xs)
  case Nil
  then show ?case by simp
next
  case (Cons z zs)
  show ?case
  proof (cases "z = x")
    case True
    with Cons.prems have "filter (\<lambda>y. g y = g x) zs = []"
      by (fastforce simp: filter_empty_conv image_iff)
    with True show ?thesis by simp
  next
    case False
    with Cons.prems have "g z \<noteq> g x"
      by auto
    with False Cons show ?thesis by simp
  qed
qed

lemma filter_eq_single:
  assumes "distinct xs" and "x \<in> set xs"
  shows "filter (\<lambda>y. x = y) xs = [x]"
  using filter_key_distinct_single [of id xs x] assms by (simp add: eq_commute)

end
