(* ===== verification/JsRuntime.thy ===== *)
theory JsRuntime
  imports Prelude
begin

text \<open>
  The JavaScript built-ins the page's logic calls, each modelled on the values the page
  gives it: string literals of ASCII text, \<open>Number.prototype.toString\<close> on integral
  numbers of magnitude below \<open>10^21\<close>, which it writes as plain decimal digits
  (\<open>getCentury(d.year).toString()\<close>, \<open>century.toString()\<close>, centuries 6 to 21),
  \<open>Array.from(new Set(xs))\<close> (deduplication in insertion order) and
  \<open>Array.prototype.sort\<close> without a comparator, which compares the elements'
  string forms code unit by code unit. Each comes with the lemmas that say what it
  computes: the decimal form is decoded back by a parser (a round trip) and is
  therefore injective, the set keeps first occurrences, and the sort is the unique
  stable permutation ordered by the string keys.
\<close>

subsection \<open>String literals\<close>

definition js_str :: "string \<Rightarrow> jsstr" where
  "js_str s = map (\<lambda>c. of_nat (of_char c)) s"

lemma js_str_simps:
  "js_str [] = []"
  "js_str (c # s) = of_nat (of_char c) # js_str s"
  by (simp_all add: js_str_def)

lemma unat_char_unit: "unat (of_nat (of_char c) :: code_unit) = of_char c"
proof -
  have "of_char c < (65536::nat)"
    using nat_of_char_less_256 [of c] by linarith
  then show ?thesis by (simp add: unat_of_nat)
qed

lemma char_unit_inj: "(of_nat (of_char c) :: code_unit) = of_nat (of_char d) \<longleftrightarrow> c = d"
  by (metis unat_char_unit char_of_char)

lemma js_str_eq_iff [simp]: "js_str s = js_str t \<longleftrightarrow> s = t"
proof (induction s arbitrary: t)
  case Nil
  then show ?case by (cases t) (simp_all add: js_str_simps)
next
  case (Cons c s)
  then show ?case by (cases t) (simp_all add: js_str_simps char_unit_inj)
qed

subsection \<open>Decimal form of an integral number\<close>

definition digit_unit :: "nat \<Rightarrow> code_unit" where
  "digit_unit d = of_nat (48 + d)"

fun nat_digits :: "nat \<Rightarrow> jsstr" where
  "nat_digits n =
     (if n < 10 then [digit_unit n] else nat_digits (n div 10) @ [digit_unit (n mod 10)])"

declare nat_digits.simps [simp del]

definition num_to_string :: "int \<Rightarrow> jsstr" where
  "num_to_string i =
     (if i < 0 then 0x2D # nat_digits (nat (- i)) else nat_digits (nat i))"

text \<open>A decoder of decimal strings, the inverse used to show that \<open>num_to_string\<close>
  loses no information.\<close>

definition parse_digit :: "code_unit \<Rightarrow> nat option" where
  "parse_digit u = (if 48 \<le> unat u \<and> unat u \<le> 57 then Some (unat u - 48) else None)"

fun parse_nat_acc :: "nat \<Rightarrow> jsstr \<Rightarrow> nat option" where
  "parse_nat_acc acc [] = Some acc"
| "parse_nat_acc acc (u # us) =
     (case parse_digit u of None \<Rightarrow> None | Some d \<Rightarrow> parse_nat_acc (10 * acc + d) us)"

definition parse_int :: "jsstr \<Rightarrow> int option" where
  "parse_int s =
     (case s of
        [] \<Rightarrow> None
      | u # us \<Rightarrow>
          (if u = 0x2D then (if us = [] then None else map_option (\<lambda>n. - int n) (parse_nat_acc 0 us))
           else map_option int (parse_nat_acc 0 s)))"

definition canonical_decimal :: "jsstr \<Rightarrow> bool" where
  "canonical_decimal s =
     (case s of
        [] \<Rightarrow> False
      | u # us \<Rightarrow> (if u = 0x2D then us \<noteq> [] \<and> hd us \<noteq> 0x30 else (u = 0x30 \<longrightarrow> us = [])))"

subsection \<open>Set and sort\<close>

definition set_add :: "'a list \<Rightarrow> 'a \<Rightarrow> 'a list" where
  "set_add s x = (if x \<in> set s then s else s @ [x])"

definition array_from_set :: "'a list \<Rightarrow> 'a list" where
  "array_from_set xs = fold (\<lambda>x s. set_add s x) xs []"

definition js_sort_default :: "int list \<Rightarrow> int list" where
  "js_sort_default xs = sort_key num_to_string xs"

subsection \<open>Digits\<close>

lemma unat_digit_unit: "d < 10 \<Longrightarrow> unat (digit_unit d) = 48 + d"
  unfolding digit_unit_def by (subst unat_of_nat) simp

lemma parse_digit_unit [simp]: "d < 10 \<Longrightarrow> parse_digit (digit_unit d) = Some d"
  by (simp add: parse_digit_def unat_digit_unit)

lemma digit_unit_less_iff: "d < 10 \<Longrightarrow> e < 10 \<Longrightarrow> digit_unit d < digit_unit e \<longleftrightarrow> d < e"
  by (simp add: word_less_nat_alt unat_digit_unit)

lemma digit_unit_not_minus: "d < 10 \<Longrightarrow> digit_unit d \<noteq> 0x2D"
proof
  assume "d < 10" and "digit_unit d = 0x2D"
  then have "48 + d = 45" using unat_digit_unit by fastforce
  then show False by simp
qed

lemma nat_digits_small [simp]: "n < 10 \<Longrightarrow> nat_digits n = [digit_unit n]"
  by (simp add: nat_digits.simps)

lemma nat_digits_large: "\<not> n < 10 \<Longrightarrow> nat_digits n = nat_digits (n div 10) @ [digit_unit (n mod 10)]"
  by (simp add: nat_digits.simps [of n])

lemma nat_digits_ne [simp]: "nat_digits n \<noteq> []"
  by (cases "n < 10") (simp_all add: nat_digits_large)

lemma nat_digits_hd: "\<exists>d < 10. hd (nat_digits n) = digit_unit d"
proof (induction n rule: nat_digits.induct)
  case (1 n)
  then show ?case
    by (cases "n < 10") (auto simp: nat_digits_large)
qed

lemma nat_digits_length_one: "length (nat_digits n) = 1 \<longleftrightarrow> n < 10"
  by (cases "n < 10") (simp_all add: nat_digits_large)

subsection \<open>The decoder inverts the encoder\<close>

lemma parse_nat_acc_snoc:
  "parse_nat_acc acc (xs @ [u]) =
     (case parse_nat_acc acc xs of None \<Rightarrow> None
      | Some v \<Rightarrow> (case parse_digit u of None \<Rightarrow> None | Some d \<Rightarrow> Some (10 * v + d)))"
  by (induction xs arbitrary: acc) (simp_all split: option.split)

lemma parse_nat_digits: "parse_nat_acc 0 (nat_digits n) = Some n"
proof (induction n rule: nat_digits.induct)
  case (1 n)
  show ?case
  proof (cases "n < 10")
    case True
    then show ?thesis by simp
  next
    case False
    with "1.IH" have "parse_nat_acc 0 (nat_digits (n div 10)) = Some (n div 10)"
      by simp
    with False show ?thesis
      by (simp add: nat_digits_large parse_nat_acc_snoc)
  qed
qed

lemma hd_nat_digits_not_minus: "hd (nat_digits n) \<noteq> 0x2D"
  using nat_digits_hd digit_unit_not_minus by metis

lemma nat_digits_eq_iff [simp]: "nat_digits m = nat_digits n \<longleftrightarrow> m = n"
  by (metis option.inject parse_nat_digits)

lemma num_to_string_inj: "inj num_to_string"
proof (rule injI)
  fix a b
  assume eq: "num_to_string a = num_to_string b"
  have hd_a: "hd (nat_digits (nat a)) \<noteq> 0x2D" and hd_b: "hd (nat_digits (nat b)) \<noteq> 0x2D"
    by (rule hd_nat_digits_not_minus)+
  show "a = b"
  proof (cases "a < 0"; cases "b < 0")
    assume "a < 0" "b < 0"
    with eq show ?thesis by (simp add: num_to_string_def)
  next
    assume "a < 0" "\<not> b < 0"
    with eq hd_b show ?thesis by (simp add: num_to_string_def) (metis list.sel(1))
  next
    assume "\<not> a < 0" "b < 0"
    with eq hd_a show ?thesis by (simp add: num_to_string_def)
  next
    assume "\<not> a < 0" "\<not> b < 0"
    with eq show ?thesis by (simp add: num_to_string_def)
  qed
qed

lemma parse_int_num_to_string: "parse_int (num_to_string i) = Some i"
proof (cases "i < 0")
  case True
  then show ?thesis
    by (simp add: num_to_string_def parse_int_def parse_nat_digits)
next
  case False
  obtain u us where split: "nat_digits (nat i) = u # us"
    by (cases "nat_digits (nat i)") simp_all
  have "u \<noteq> 0x2D"
    using hd_nat_digits_not_minus [of "nat i"] split by simp
  with False split parse_nat_digits [of "nat i"] show ?thesis
    by (simp add: num_to_string_def parse_int_def)
qed

lemma digit_unit_inj: "d < 10 \<Longrightarrow> e < 10 \<Longrightarrow> digit_unit d = digit_unit e \<longleftrightarrow> d = e"
  by (metis unat_digit_unit add_left_cancel)

lemma parse_digit_Some: "parse_digit u = Some d \<Longrightarrow> d < 10 \<and> u = digit_unit d"
  by (auto simp: parse_digit_def digit_unit_def split: if_splits)

lemma hd_nat_digits_zero: "0 < n \<Longrightarrow> hd (nat_digits n) \<noteq> 0x30"
proof (induction n rule: nat_digits.induct)
  case (1 n)
  show ?case
  proof (cases "n < 10")
    case True
    have "digit_unit 0 = 0x30" by (simp add: digit_unit_def)
    with True "1.prems" digit_unit_inj [of n 0] show ?thesis by simp
  next
    case False
    then have "0 < n div 10" by simp
    with False "1.IH" show ?thesis by (simp add: nat_digits_large)
  qed
qed

lemma nat_digits_parse:
  "parse_nat_acc 0 xs = Some v \<Longrightarrow> xs \<noteq> [] \<Longrightarrow> (hd xs = 0x30 \<longrightarrow> xs = [0x30]) \<Longrightarrow> nat_digits v = xs"
proof (induction xs arbitrary: v rule: rev_induct)
  case Nil
  then show ?case by simp
next
  case (snoc u ys)
  from snoc.prems(1) obtain w d where w: "parse_nat_acc 0 ys = Some w"
    and d: "parse_digit u = Some d" and v: "v = 10 * w + d"
    by (auto simp: parse_nat_acc_snoc split: option.splits)
  from d have d10: "d < 10" and u: "u = digit_unit d" by (auto dest: parse_digit_Some)
  show ?case
  proof (cases "ys = []")
    case True
    with w v d10 u show ?thesis by simp
  next
    case False
    with snoc.prems(3) have hd_ys: "hd ys \<noteq> 0x30" by auto
    with False have "nat_digits w = ys" by (intro snoc.IH [OF w]) simp_all
    moreover have "w \<noteq> 0"
    proof
      assume "w = 0"
      with \<open>nat_digits w = ys\<close> have "ys = [digit_unit 0]" by simp
      with hd_ys show False by (simp add: digit_unit_def)
    qed
    ultimately show ?thesis using v d10 u by (simp add: nat_digits_large)
  qed
qed

lemma parse_canonical_num_to_string:
  assumes p: "parse_int s = Some i" and c: "canonical_decimal s"
  shows "s = num_to_string i"
proof (cases s)
  case Nil
  with c show ?thesis by (simp add: canonical_decimal_def)
next
  case (Cons u us)
  show ?thesis
  proof (cases "u = 0x2D")
    case True
    with Cons c have ne: "us \<noteq> []" and h: "hd us \<noteq> 0x30"
      by (simp_all add: canonical_decimal_def)
    with Cons True p obtain n where n: "parse_nat_acc 0 us = Some n" and i: "i = - int n"
      by (auto simp: parse_int_def)
    from n ne h have us: "nat_digits n = us" by (simp add: nat_digits_parse)
    have "n \<noteq> 0"
    proof
      assume "n = 0"
      with us h show False by (auto simp: digit_unit_def)
    qed
    with i us Cons True show ?thesis by (simp add: num_to_string_def)
  next
    case False
    with Cons p obtain n where n: "parse_nat_acc 0 s = Some n" and i: "i = int n"
      by (auto simp: parse_int_def)
    from Cons False c have "hd s = 0x30 \<longrightarrow> s = [0x30]"
      by (simp add: canonical_decimal_def)
    with n Cons have "nat_digits n = s" by (simp add: nat_digits_parse)
    with i show ?thesis by (simp add: num_to_string_def)
  qed
qed

lemma canonical_num_to_string: "canonical_decimal (num_to_string i)"
proof (cases "i < 0")
  case True
  then have "0 < nat (- i)" by simp
  then have "hd (nat_digits (nat (- i))) \<noteq> 0x30" by (rule hd_nat_digits_zero)
  with True show ?thesis by (simp add: num_to_string_def canonical_decimal_def)
next
  case False
  obtain u us where split: "nat_digits (nat i) = u # us"
    by (cases "nat_digits (nat i)") simp_all
  have "u \<noteq> 0x2D" using hd_nat_digits_not_minus [of "nat i"] split by simp
  moreover have "u = 0x30 \<longrightarrow> us = []"
  proof
    assume "u = 0x30"
    with split hd_nat_digits_zero [of "nat i"] have "nat i = 0" by fastforce
    with split show "us = []" by simp
  qed
  ultimately show ?thesis using False split by (simp add: num_to_string_def canonical_decimal_def)
qed

lemma unat_hd_num_to_string:
  "unat (hd (num_to_string c)) = 45 \<or>
   (48 \<le> unat (hd (num_to_string c)) \<and> unat (hd (num_to_string c)) \<le> 57)"
proof (cases "c < 0")
  case True
  then show ?thesis by (simp add: num_to_string_def)
next
  case False
  obtain d where "d < 10" and "hd (nat_digits (nat c)) = digit_unit d"
    using nat_digits_hd by blast
  with False show ?thesis by (simp add: num_to_string_def unat_digit_unit)
qed

lemma num_to_string_eq_iff [simp]: "num_to_string a = num_to_string b \<longleftrightarrow> a = b"
  using num_to_string_inj by (simp add: inj_eq)

subsection \<open>Code-unit order of decimal forms\<close>

lemma less_digits_10:
  "(r::nat) < 10 \<Longrightarrow> s < 10 \<Longrightarrow> 10 * a + r < 10 * b + s \<longleftrightarrow> a < b \<or> (a = b \<and> r < s)"
  by arith

lemma less_by_div_mod_10:
  "(m::nat) < n \<longleftrightarrow> m div 10 < n div 10 \<or> (m div 10 = n div 10 \<and> m mod 10 < n mod 10)"
proof -
  have "m < n \<longleftrightarrow> 10 * (m div 10) + m mod 10 < 10 * (n div 10) + n mod 10"
    by simp
  also have "\<dots> \<longleftrightarrow> m div 10 < n div 10 \<or> (m div 10 = n div 10 \<and> m mod 10 < n mod 10)"
    by (rule less_digits_10) simp_all
  finally show ?thesis .
qed

lemma nat_digits_less_same_length:
  "length (nat_digits m) = length (nat_digits n) \<Longrightarrow> nat_digits m < nat_digits n \<longleftrightarrow> m < n"
proof (induction n arbitrary: m rule: nat_digits.induct)
  case (1 n)
  show ?case
  proof (cases "n < 10")
    case True
    with "1.prems" have "m < 10"
      using nat_digits_length_one by metis
    with True show ?thesis by (simp add: digit_unit_less_iff)
  next
    case False
    with "1.prems" have m10: "\<not> m < 10"
      using nat_digits_length_one by metis
    have len: "length (nat_digits (m div 10)) = length (nat_digits (n div 10))"
      using "1.prems" False m10 by (simp add: nat_digits_large)
    have "nat_digits m < nat_digits n \<longleftrightarrow>
        m div 10 < n div 10 \<or> (m div 10 = n div 10 \<and> m mod 10 < n mod 10)"
      using False m10 len "1.IH" [OF False len]
      by (simp add: nat_digits_large snoc_less_snoc_same_length digit_unit_less_iff)
    also have "\<dots> \<longleftrightarrow> m < n"
      by (rule less_by_div_mod_10 [symmetric])
    finally show ?thesis .
  qed
qed

lemma num_to_string_less_same_length:
  assumes "0 \<le> a" and "0 \<le> b" and "length (num_to_string a) = length (num_to_string b)"
  shows "num_to_string a < num_to_string b \<longleftrightarrow> a < b"
  using assms nat_digits_less_same_length [of "nat a" "nat b"]
  by (simp add: num_to_string_def) arith

subsection \<open>The set keeps first occurrences\<close>

lemma set_fold_set_add: "set (fold (\<lambda>x s. set_add s x) xs s) = set s \<union> set xs"
  by (induction xs arbitrary: s) (auto simp: set_add_def)

lemma distinct_fold_set_add: "distinct s \<Longrightarrow> distinct (fold (\<lambda>x s. set_add s x) xs s)"
  by (induction xs arbitrary: s) (auto simp: set_add_def)

lemma dedup_first_Cons:
  "rev (remdups (rev xs @ [x])) = x # filter (\<lambda>y. y \<noteq> x) (rev (remdups (rev xs)))"
  by (simp add: remdups_snoc rev_filter)

lemma fold_set_add_dedup:
  "fold (\<lambda>x s. set_add s x) xs s = s @ filter (\<lambda>y. y \<notin> set s) (rev (remdups (rev xs)))"
proof (induction xs arbitrary: s)
  case Nil
  then show ?case by simp
next
  case (Cons x xs)
  let ?d = "rev (remdups (rev xs))"
  show ?case
  proof (cases "x \<in> set s")
    case True
    then have "filter (\<lambda>y. y \<notin> set s) (filter (\<lambda>y. y \<noteq> x) ?d) = filter (\<lambda>y. y \<notin> set s) ?d"
      by (auto intro: filter_cong)
    with True Cons.IH [of s] show ?thesis
      by (simp add: set_add_def dedup_first_Cons)
  next
    case False
    have "filter (\<lambda>y. y \<notin> set (s @ [x])) ?d = filter (\<lambda>y. y \<notin> set s) (filter (\<lambda>y. y \<noteq> x) ?d)"
      by (auto intro: filter_cong)
    with False Cons.IH [of "s @ [x]"] show ?thesis
      by (simp add: set_add_def dedup_first_Cons)
  qed
qed

lemma set_array_from_set [simp]: "set (array_from_set xs) = set xs"
  by (simp add: array_from_set_def set_fold_set_add)

lemma distinct_array_from_set [simp]: "distinct (array_from_set xs)"
  by (simp add: array_from_set_def distinct_fold_set_add)

subsection \<open>The default sort\<close>

lemma mset_js_sort_default [simp]: "mset (js_sort_default xs) = mset xs"
  by (simp add: js_sort_default_def)

subsection \<open>Properties\<close>

text \<open>The model of the comparator-less sort is the only result a conforming engine
  can return: any permutation of the input whose string keys are in order equals it.\<close>

lemma js_sort_default_unique:
  assumes "mset ys = mset xs" and "sorted (map num_to_string ys)"
  shows "js_sort_default xs = ys"
  unfolding js_sort_default_def
proof (rule sort_key_inj_key_eq)
  show "mset xs = mset ys" using assms(1) by simp
  show "inj_on num_to_string (set xs)" using num_to_string_inj by (rule inj_on_subset) simp
  show "sorted (map num_to_string ys)" by (rule assms(2))
qed

text \<open>When all values are non-negative with the same number of digits, the string
  order of the default sort is the numeric order.\<close>

lemma js_sort_default_numeric:
  assumes "\<forall>x \<in> set xs. 0 \<le> x \<and> length (num_to_string x) = k"
  shows "js_sort_default xs = sort xs"
  unfolding js_sort_default_def
proof (rule sort_key_inj_key_eq)
  show "mset xs = mset (sort xs)" by simp
  show "inj_on num_to_string (set xs)" using num_to_string_inj by (rule inj_on_subset) simp
  have mono: "num_to_string a \<le> num_to_string b"
    if "a \<in> set (sort xs)" "b \<in> set (sort xs)" "a \<le> b" for a b
    using that assms num_to_string_less_same_length by (auto simp: order_le_less)
  have "sorted_wrt (\<lambda>a b. num_to_string a \<le> num_to_string b) (sort xs)"
    by (rule sorted_wrt_mono_rel [OF mono sorted_sort])
  then show "sorted (map num_to_string (sort xs))"
    by (simp add: sorted_wrt_map)
qed

end
