(* ===== verification/Disease.thy ===== *)
theory Disease
  imports JsRuntime
begin

text \<open>
  The data of the page (src/src/pages/Index.tsx, lines 9--143): the \<open>Disease\<close>
  interface as a record, its \<open>severity\<close> union of three string literals as a datatype
  whose constructors stand for the literals \<open>"critical"\<close>, \<open>"high"\<close> and
  \<open>"moderate"\<close> (\<open>severity_str\<close> gives the string a value carries at run time),
  and the constant array \<open>diseases\<close> of eleven records. Every text field is the source's
  string as its UTF-16 code units; the comment above each field transliterates it.
  The lemmas give the projections of the array (identifiers, years, severities) that the
  other theories compute with, and the array's invariants: eleven records with distinct
  identifiers and positive years.
\<close>

datatype severity = Critical | High | Moderate

primrec severity_str :: "severity \<Rightarrow> jsstr" where
  "severity_str Critical = js_str ''critical''"
| "severity_str High = js_str ''high''"
| "severity_str Moderate = js_str ''moderate''"

record disease =
  id' :: jsstr
  name :: jsstr
  year :: int
  period :: jsstr
  deaths :: jsstr
  affected :: jsstr
  description :: jsstr
  region :: jsstr
  severity :: severity

definition disease_1 :: disease where
  "disease_1 = \<lparr>
    id' = js_str ''1'',
    \<comment> \<open>Chuma Yustiniana\<close>
    name = [0x427, 0x443, 0x43C, 0x430, 0x20, 0x42E, 0x441, 0x442, 0x438, 0x43D, 0x438, 0x430, 0x43D, 0x430],
    year = 541,
    \<comment> \<open>541-549 gg.\<close>
    period = [0x35, 0x34, 0x31, 0x2D, 0x35, 0x34, 0x39, 0x20, 0x433, 0x433, 0x2E],
    \<comment> \<open>25-100 mln\<close>
    deaths = [0x32, 0x35, 0x2D, 0x31, 0x30, 0x30, 0x20, 0x43C, 0x43B, 0x43D],
    \<comment> \<open>Vizantiyskaya imperiya\<close>
    affected = [0x412, 0x438, 0x437, 0x430, 0x43D, 0x442, 0x438, 0x439, 0x441, 0x43A, 0x430, 0x44F, 0x20, 0x438, 0x43C, 0x43F, 0x435, 0x440, 0x438, 0x44F],
    \<comment> \<open>Pervaya zaregistrirovannaya pandemiya chumy. Unichtozhila do poloviny naseleniya Vizantii i znachitelno oslabila imperiyu.\<close>
    description = [0x41F, 0x435, 0x440, 0x432, 0x430, 0x44F, 0x20, 0x437, 0x430, 0x440, 0x435, 0x433, 0x438, 0x441, 0x442, 0x440, 0x438, 0x440, 0x43E, 0x432, 0x430, 0x43D, 0x43D, 0x430, 0x44F, 0x20, 0x43F, 0x430, 0x43D, 0x434, 0x435, 0x43C, 0x438, 0x44F, 0x20, 0x447, 0x443, 0x43C, 0x44B, 0x2E, 0x20, 0x423, 0x43D, 0x438, 0x447, 0x442, 0x43E, 0x436, 0x438, 0x43B, 0x430, 0x20, 0x434, 0x43E, 0x20, 0x43F, 0x43E, 0x43B, 0x43E, 0x432, 0x438, 0x43D, 0x44B, 0x20, 0x43D, 0x430, 0x441, 0x435, 0x43B, 0x435, 0x43D, 0x438, 0x44F, 0x20, 0x412, 0x438, 0x437, 0x430, 0x43D, 0x442, 0x438, 0x438, 0x20, 0x438, 0x20, 0x437, 0x43D, 0x430, 0x447, 0x438, 0x442, 0x435, 0x43B, 0x44C, 0x43D, 0x43E, 0x20, 0x43E, 0x441, 0x43B, 0x430, 0x431, 0x438, 0x43B, 0x430, 0x20, 0x438, 0x43C, 0x43F, 0x435, 0x440, 0x438, 0x44E, 0x2E],
    \<comment> \<open>Sredizemnomore, Evropa, Aziya\<close>
    region = [0x421, 0x440, 0x435, 0x434, 0x438, 0x437, 0x435, 0x43C, 0x43D, 0x43E, 0x43C, 0x43E, 0x440, 0x44C, 0x435, 0x2C, 0x20, 0x415, 0x432, 0x440, 0x43E, 0x43F, 0x430, 0x2C, 0x20, 0x410, 0x437, 0x438, 0x44F],
    severity = Critical\<rparr>"

definition disease_2 :: disease where
  "disease_2 = \<lparr>
    id' = js_str ''2'',
    \<comment> \<open>Chernaya smert\<close>
    name = [0x427, 0x451, 0x440, 0x43D, 0x430, 0x44F, 0x20, 0x441, 0x43C, 0x435, 0x440, 0x442, 0x44C],
    year = 1347,
    \<comment> \<open>1347-1353 gg.\<close>
    period = [0x31, 0x33, 0x34, 0x37, 0x2D, 0x31, 0x33, 0x35, 0x33, 0x20, 0x433, 0x433, 0x2E],
    \<comment> \<open>75-200 mln\<close>
    deaths = [0x37, 0x35, 0x2D, 0x32, 0x30, 0x30, 0x20, 0x43C, 0x43B, 0x43D],
    \<comment> \<open>Evropa, Aziya, Afrika\<close>
    affected = [0x415, 0x432, 0x440, 0x43E, 0x43F, 0x430, 0x2C, 0x20, 0x410, 0x437, 0x438, 0x44F, 0x2C, 0x20, 0x410, 0x444, 0x440, 0x438, 0x43A, 0x430],
    \<comment> \<open>Samaya razrushitelnaya pandemiya v istorii chelovechestva. Pogiblo ot 30% do 60% naseleniya Evropy.\<close>
    description = [0x421, 0x430, 0x43C, 0x430, 0x44F, 0x20, 0x440, 0x430, 0x437, 0x440, 0x443, 0x448, 0x438, 0x442, 0x435, 0x43B, 0x44C, 0x43D, 0x430, 0x44F, 0x20, 0x43F, 0x430, 0x43D, 0x434, 0x435, 0x43C, 0x438, 0x44F, 0x20, 0x432, 0x20, 0x438, 0x441, 0x442, 0x43E, 0x440, 0x438, 0x438, 0x20, 0x447, 0x435, 0x43B, 0x43E, 0x432, 0x435, 0x447, 0x435, 0x441, 0x442, 0x432, 0x430, 0x2E, 0x20, 0x41F, 0x43E, 0x433, 0x438, 0x431, 0x43B, 0x43E, 0x20, 0x43E, 0x442, 0x20, 0x33, 0x30, 0x25, 0x20, 0x434, 0x43E, 0x20, 0x36, 0x30, 0x25, 0x20, 0x43D, 0x430, 0x441, 0x435, 0x43B, 0x435, 0x43D, 0x438, 0x44F, 0x20, 0x415, 0x432, 0x440, 0x43E, 0x43F, 0x44B, 0x2E],
    \<comment> \<open>Evraziya, Severnaya Afrika\<close>
    region = [0x415, 0x432, 0x440, 0x430, 0x437, 0x438, 0x44F, 0x2C, 0x20, 0x421, 0x435, 0x432, 0x435, 0x440, 0x43D, 0x430, 0x44F, 0x20, 0x410, 0x444, 0x440, 0x438, 0x43A, 0x430],
    severity = Critical\<rparr>"

definition disease_3 :: disease where
  "disease_3 = \<lparr>
    id' = js_str ''3'',
    \<comment> \<open>Ospa\<close>
    name = [0x41E, 0x441, 0x43F, 0x430],
    year = 1520,
    \<comment> \<open>1520-1980 gg.\<close>
    period = [0x31, 0x35, 0x32, 0x30, 0x2D, 0x31, 0x39, 0x38, 0x30, 0x20, 0x433, 0x433, 0x2E],
    \<comment> \<open>300-500 mln\<close>
    deaths = [0x33, 0x30, 0x30, 0x2D, 0x35, 0x30, 0x30, 0x20, 0x43C, 0x43B, 0x43D],
    \<comment> \<open>Ves mir\<close>
    affected = [0x412, 0x435, 0x441, 0x44C, 0x20, 0x43C, 0x438, 0x440],
    \<comment> \<open>Virusnoe zabolevanie, kotoroe opustoshalo chelovechestvo vekami. Likvidirovano v 1980 godu blagodarya vaktsinatsii.\<close>
    description = [0x412, 0x438, 0x440, 0x443, 0x441, 0x43D, 0x43E, 0x435, 0x20, 0x437, 0x430, 0x431, 0x43E, 0x43B, 0x435, 0x432, 0x430, 0x43D, 0x438, 0x435, 0x2C, 0x20, 0x43A, 0x43E, 0x442, 0x43E, 0x440, 0x43E, 0x435, 0x20, 0x43E, 0x43F, 0x443, 0x441, 0x442, 0x43E, 0x448, 0x430, 0x43B, 0x43E, 0x20, 0x447, 0x435, 0x43B, 0x43E, 0x432, 0x435, 0x447, 0x435, 0x441, 0x442, 0x432, 0x43E, 0x20, 0x432, 0x435, 0x43A, 0x430, 0x43C, 0x438, 0x2E, 0x20, 0x41B, 0x438, 0x43A, 0x432, 0x438, 0x434, 0x438, 0x440, 0x43E, 0x432, 0x430, 0x43D, 0x43E, 0x20, 0x432, 0x20, 0x31, 0x39, 0x38, 0x30, 0x20, 0x433, 0x43E, 0x434, 0x443, 0x20, 0x431, 0x43B, 0x430, 0x433, 0x43E, 0x434, 0x430, 0x440, 0x44F, 0x20, 0x432, 0x430, 0x43A, 0x446, 0x438, 0x43D, 0x430, 0x446, 0x438, 0x438, 0x2E],
    \<comment> \<open>Ves mir\<close>
    region = [0x412, 0x435, 0x441, 0x44C, 0x20, 0x43C, 0x438, 0x440],
    severity = Critical\<rparr>"

definition disease_4 :: disease where
  "disease_4 = \<lparr>
    id' = js_str ''4'',
    \<comment> \<open>Kholera\<close>
    name = [0x425, 0x43E, 0x43B, 0x435, 0x440, 0x430],
    year = 1817,
    \<comment> \<open>1817-nastoyashchee vremya\<close>
    period = [0x31, 0x38, 0x31, 0x37, 0x2D, 0x43D, 0x430, 0x441, 0x442, 0x43E, 0x44F, 0x449, 0x435, 0x435, 0x20, 0x432, 0x440, 0x435, 0x43C, 0x44F],
    \<comment> \<open>40+ mln\<close>
    deaths = [0x34, 0x30, 0x2B, 0x20, 0x43C, 0x43B, 0x43D],
    \<comment> \<open>Ves mir\<close>
    affected = [0x412, 0x435, 0x441, 0x44C, 0x20, 0x43C, 0x438, 0x440],
    \<comment> \<open>Sem pandemiy kholery. Ostaetsya problemoy v razvivayushchikhsya stranakh s plokhoy sanitariey.\<close>
    description = [0x421, 0x435, 0x43C, 0x44C, 0x20, 0x43F, 0x430, 0x43D, 0x434, 0x435, 0x43C, 0x438, 0x439, 0x20, 0x445, 0x43E, 0x43B, 0x435, 0x440, 0x44B, 0x2E, 0x20, 0x41E, 0x441, 0x442, 0x430, 0x435, 0x442, 0x441, 0x44F, 0x20, 0x43F, 0x440, 0x43E, 0x431, 0x43B, 0x435, 0x43C, 0x43E, 0x439, 0x20, 0x432, 0x20, 0x440, 0x430, 0x437, 0x432, 0x438, 0x432, 0x430, 0x44E, 0x449, 0x438, 0x445, 0x441, 0x44F, 0x20, 0x441, 0x442, 0x440, 0x430, 0x43D, 0x430, 0x445, 0x20, 0x441, 0x20, 0x43F, 0x43B, 0x43E, 0x445, 0x43E, 0x439, 0x20, 0x441, 0x430, 0x43D, 0x438, 0x442, 0x430, 0x440, 0x438, 0x435, 0x439, 0x2E],
    \<comment> \<open>Indiya, Aziya, Afrika, Evropa\<close>
    region = [0x418, 0x43D, 0x434, 0x438, 0x44F, 0x2C, 0x20, 0x410, 0x437, 0x438, 0x44F, 0x2C, 0x20, 0x410, 0x444, 0x440, 0x438, 0x43A, 0x430, 0x2C, 0x20, 0x415, 0x432, 0x440, 0x43E, 0x43F, 0x430],
    severity = High\<rparr>"

definition disease_5 :: disease where
  "disease_5 = \<lparr>
    id' = js_str ''5'',
    \<comment> \<open>Ispanskiy gripp\<close>
    name = [0x418, 0x441, 0x43F, 0x430, 0x43D, 0x441, 0x43A, 0x438, 0x439, 0x20, 0x433, 0x440, 0x438, 0x43F, 0x43F],
    year = 1918,
    \<comment> \<open>1918-1920 gg.\<close>
    period = [0x31, 0x39, 0x31, 0x38, 0x2D, 0x31, 0x39, 0x32, 0x30, 0x20, 0x433, 0x433, 0x2E],
    \<comment> \<open>50-100 mln\<close>
    deaths = [0x35, 0x30, 0x2D, 0x31, 0x30, 0x30, 0x20, 0x43C, 0x43B, 0x43D],
    \<comment> \<open>500 mln\<close>
    affected = [0x35, 0x30, 0x30, 0x20, 0x43C, 0x43B, 0x43D],
    \<comment> \<open>Samaya smertonosnaya pandemiya grippa v istorii. Zarazila tret naseleniya planety.\<close>
    description = [0x421, 0x430, 0x43C, 0x430, 0x44F, 0x20, 0x441, 0x43C, 0x435, 0x440, 0x442, 0x43E, 0x43D, 0x43E, 0x441, 0x43D, 0x430, 0x44F, 0x20, 0x43F, 0x430, 0x43D, 0x434, 0x435, 0x43C, 0x438, 0x44F, 0x20, 0x433, 0x440, 0x438, 0x43F, 0x43F, 0x430, 0x20, 0x432, 0x20, 0x438, 0x441, 0x442, 0x43E, 0x440, 0x438, 0x438, 0x2E, 0x20, 0x417, 0x430, 0x440, 0x430, 0x437, 0x438, 0x43B, 0x430, 0x20, 0x442, 0x440, 0x435, 0x442, 0x44C, 0x20, 0x43D, 0x430, 0x441, 0x435, 0x43B, 0x435, 0x43D, 0x438, 0x44F, 0x20, 0x43F, 0x43B, 0x430, 0x43D, 0x435, 0x442, 0x44B, 0x2E],
    \<comment> \<open>Ves mir\<close>
    region = [0x412, 0x435, 0x441, 0x44C, 0x20, 0x43C, 0x438, 0x440],
    severity = Critical\<rparr>"

definition disease_6 :: disease where
  "disease_6 = \<lparr>
    id' = js_str ''6'',
    \<comment> \<open>Aziatskiy gripp\<close>
    name = [0x410, 0x437, 0x438, 0x430, 0x442, 0x441, 0x43A, 0x438, 0x439, 0x20, 0x433, 0x440, 0x438, 0x43F, 0x43F],
    year = 1957,
    \<comment> \<open>1957-1958 gg.\<close>
    period = [0x31, 0x39, 0x35, 0x37, 0x2D, 0x31, 0x39, 0x35, 0x38, 0x20, 0x433, 0x433, 0x2E],
    \<comment> \<open>1-2 mln\<close>
    deaths = [0x31, 0x2D, 0x32, 0x20, 0x43C, 0x43B, 0x43D],
    \<comment> \<open>Ves mir\<close>
    affected = [0x412, 0x435, 0x441, 0x44C, 0x20, 0x43C, 0x438, 0x440],
    \<comment> \<open>Pandemiya grippa H2N2, nachavshayasya v Kitae i bystro rasprostranivshayasya po vsemu miru.\<close>
    description = [0x41F, 0x430, 0x43D, 0x434, 0x435, 0x43C, 0x438, 0x44F, 0x20, 0x433, 0x440, 0x438, 0x43F, 0x43F, 0x430, 0x20, 0x48, 0x32, 0x4E, 0x32, 0x2C, 0x20, 0x43D, 0x430, 0x447, 0x430, 0x432, 0x448, 0x430, 0x44F, 0x441, 0x44F, 0x20, 0x432, 0x20, 0x41A, 0x438, 0x442, 0x430, 0x435, 0x20, 0x438, 0x20, 0x431, 0x44B, 0x441, 0x442, 0x440, 0x43E, 0x20, 0x440, 0x430, 0x441, 0x43F, 0x440, 0x43E, 0x441, 0x442, 0x440, 0x430, 0x43D, 0x438, 0x432, 0x448, 0x430, 0x44F, 0x441, 0x44F, 0x20, 0x43F, 0x43E, 0x20, 0x432, 0x441, 0x435, 0x43C, 0x443, 0x20, 0x43C, 0x438, 0x440, 0x443, 0x2E],
    \<comment> \<open>Ves mir\<close>
    region = [0x412, 0x435, 0x441, 0x44C, 0x20, 0x43C, 0x438, 0x440],
    severity = High\<rparr>"

definition disease_7 :: disease where
  "disease_7 = \<lparr>
    id' = js_str ''7'',
    \<comment> \<open>VICh/SPID\<close>
    name = [0x412, 0x418, 0x427, 0x2F, 0x421, 0x41F, 0x418, 0x414],
    year = 1981,
    \<comment> \<open>1981-nastoyashchee vremya\<close>
    period = [0x31, 0x39, 0x38, 0x31, 0x2D, 0x43D, 0x430, 0x441, 0x442, 0x43E, 0x44F, 0x449, 0x435, 0x435, 0x20, 0x432, 0x440, 0x435, 0x43C, 0x44F],
    \<comment> \<open>40+ mln\<close>
    deaths = [0x34, 0x30, 0x2B, 0x20, 0x43C, 0x43B, 0x43D],
    \<comment> \<open>85+ mln\<close>
    affected = [0x38, 0x35, 0x2B, 0x20, 0x43C, 0x43B, 0x43D],
    \<comment> \<open>Globalnaya pandemiya, vyzvannaya virusom immunodefitsita cheloveka. Ostaetsya sereznoy problemoy zdravookhraneniya.\<close>
    description = [0x413, 0x43B, 0x43E, 0x431, 0x430, 0x43B, 0x44C, 0x43D, 0x430, 0x44F, 0x20, 0x43F, 0x430, 0x43D, 0x434, 0x435, 0x43C, 0x438, 0x44F, 0x2C, 0x20, 0x432, 0x44B, 0x437, 0x432, 0x430, 0x43D, 0x43D, 0x430, 0x44F, 0x20, 0x432, 0x438, 0x440, 0x443, 0x441, 0x43E, 0x43C, 0x20, 0x438, 0x43C, 0x43C, 0x443, 0x43D, 0x43E, 0x434, 0x435, 0x444, 0x438, 0x446, 0x438, 0x442, 0x430, 0x20, 0x447, 0x435, 0x43B, 0x43E, 0x432, 0x435, 0x43A, 0x430, 0x2E, 0x20, 0x41E, 0x441, 0x442, 0x430, 0x435, 0x442, 0x441, 0x44F, 0x20, 0x441, 0x435, 0x440, 0x44C, 0x435, 0x437, 0x43D, 0x43E, 0x439, 0x20, 0x43F, 0x440, 0x43E, 0x431, 0x43B, 0x435, 0x43C, 0x43E, 0x439, 0x20, 0x437, 0x434, 0x440, 0x430, 0x432, 0x43E, 0x43E, 0x445, 0x440, 0x430, 0x43D, 0x435, 0x43D, 0x438, 0x44F, 0x2E],
    \<comment> \<open>Ves mir\<close>
    region = [0x412, 0x435, 0x441, 0x44C, 0x20, 0x43C, 0x438, 0x440],
    severity = Critical\<rparr>"

definition disease_8 :: disease where
  "disease_8 = \<lparr>
    id' = js_str ''8'',
    \<comment> \<open>Atipichnaya pnevmoniya (SARS)\<close>
    name = [0x410, 0x442, 0x438, 0x43F, 0x438, 0x447, 0x43D, 0x430, 0x44F, 0x20, 0x43F, 0x43D, 0x435, 0x432, 0x43C, 0x43E, 0x43D, 0x438, 0x44F, 0x20, 0x28, 0x53, 0x41, 0x52, 0x53, 0x29],
    year = 2002,
    \<comment> \<open>2002-2003 gg.\<close>
    period = [0x32, 0x30, 0x30, 0x32, 0x2D, 0x32, 0x30, 0x30, 0x33, 0x20, 0x433, 0x433, 0x2E],
    \<comment> \<open>774\<close>
    deaths = js_str ''774'',
    \<comment> \<open>8,098\<close>
    affected = js_str ''8,098'',
    \<comment> \<open>Pervaya sereznaya i legko peredayushchayasya bolezn XXI veka. Byla uspeshno lokalizovana.\<close>
    description = [0x41F, 0x435, 0x440, 0x432, 0x430, 0x44F, 0x20, 0x441, 0x435, 0x440, 0x44C, 0x435, 0x437, 0x43D, 0x430, 0x44F, 0x20, 0x438, 0x20, 0x43B, 0x435, 0x433, 0x43A, 0x43E, 0x20, 0x43F, 0x435, 0x440, 0x435, 0x434, 0x430, 0x44E, 0x449, 0x430, 0x44F, 0x441, 0x44F, 0x20, 0x431, 0x43E, 0x43B, 0x435, 0x437, 0x43D, 0x44C, 0x20, 0x58, 0x58, 0x49, 0x20, 0x432, 0x435, 0x43A, 0x430, 0x2E, 0x20, 0x411, 0x44B, 0x43B, 0x430, 0x20, 0x443, 0x441, 0x43F, 0x435, 0x448, 0x43D, 0x43E, 0x20, 0x43B, 0x43E, 0x43A, 0x430, 0x43B, 0x438, 0x437, 0x43E, 0x432, 0x430, 0x43D, 0x430, 0x2E],
    \<comment> \<open>Kitay, Aziya\<close>
    region = [0x41A, 0x438, 0x442, 0x430, 0x439, 0x2C, 0x20, 0x410, 0x437, 0x438, 0x44F],
    severity = Moderate\<rparr>"

definition disease_9 :: disease where
  "disease_9 = \<lparr>
    id' = js_str ''9'',
    \<comment> \<open>Svinoy gripp (H1N1)\<close>
    name = [0x421, 0x432, 0x438, 0x43D, 0x43E, 0x439, 0x20, 0x433, 0x440, 0x438, 0x43F, 0x43F, 0x20, 0x28, 0x48, 0x31, 0x4E, 0x31, 0x29],
    year = 2009,
    \<comment> \<open>2009-2010 gg.\<close>
    period = [0x32, 0x30, 0x30, 0x39, 0x2D, 0x32, 0x30, 0x31, 0x30, 0x20, 0x433, 0x433, 0x2E],
    \<comment> \<open>150-575 tys\<close>
    deaths = [0x31, 0x35, 0x30, 0x2D, 0x35, 0x37, 0x35, 0x20, 0x442, 0x44B, 0x441],
    \<comment> \<open>700 mln - 1.4 mlrd\<close>
    affected = [0x37, 0x30, 0x30, 0x20, 0x43C, 0x43B, 0x43D, 0x20, 0x2D, 0x20, 0x31, 0x2E, 0x34, 0x20, 0x43C, 0x43B, 0x440, 0x434],
    \<comment> \<open>Pandemiya grippa, vyzvannaya novym shtammom H1N1. Porazila bolee 10% naseleniya planety.\<close>
    description = [0x41F, 0x430, 0x43D, 0x434, 0x435, 0x43C, 0x438, 0x44F, 0x20, 0x433, 0x440, 0x438, 0x43F, 0x43F, 0x430, 0x2C, 0x20, 0x432, 0x44B, 0x437, 0x432, 0x430, 0x43D, 0x43D, 0x430, 0x44F, 0x20, 0x43D, 0x43E, 0x432, 0x44B, 0x43C, 0x20, 0x448, 0x442, 0x430, 0x43C, 0x43C, 0x43E, 0x43C, 0x20, 0x48, 0x31, 0x4E, 0x31, 0x2E, 0x20, 0x41F, 0x43E, 0x440, 0x430, 0x437, 0x438, 0x43B, 0x430, 0x20, 0x431, 0x43E, 0x43B, 0x435, 0x435, 0x20, 0x31, 0x30, 0x25, 0x20, 0x43D, 0x430, 0x441, 0x435, 0x43B, 0x435, 0x43D, 0x438, 0x44F, 0x20, 0x43F, 0x43B, 0x430, 0x43D, 0x435, 0x442, 0x44B, 0x2E],
    \<comment> \<open>Ves mir\<close>
    region = [0x412, 0x435, 0x441, 0x44C, 0x20, 0x43C, 0x438, 0x440],
    severity = High\<rparr>"

definition disease_10 :: disease where
  "disease_10 = \<lparr>
    id' = js_str ''10'',
    \<comment> \<open>Ebola\<close>
    name = [0x42D, 0x431, 0x43E, 0x43B, 0x430],
    year = 2014,
    \<comment> \<open>2014-2016 gg.\<close>
    period = [0x32, 0x30, 0x31, 0x34, 0x2D, 0x32, 0x30, 0x31, 0x36, 0x20, 0x433, 0x433, 0x2E],
    \<comment> \<open>11,323\<close>
    deaths = js_str ''11,323'',
    \<comment> \<open>28,616\<close>
    affected = js_str ''28,616'',
    \<comment> \<open>Krupneyshaya vspyshka likhoradki Ebola v istorii. Vysokaya letalnost do 50%.\<close>
    description = [0x41A, 0x440, 0x443, 0x43F, 0x43D, 0x435, 0x439, 0x448, 0x430, 0x44F, 0x20, 0x432, 0x441, 0x43F, 0x44B, 0x448, 0x43A, 0x430, 0x20, 0x43B, 0x438, 0x445, 0x43E, 0x440, 0x430, 0x434, 0x43A, 0x438, 0x20, 0x42D, 0x431, 0x43E, 0x43B, 0x430, 0x20, 0x432, 0x20, 0x438, 0x441, 0x442, 0x43E, 0x440, 0x438, 0x438, 0x2E, 0x20, 0x412, 0x44B, 0x441, 0x43E, 0x43A, 0x430, 0x44F, 0x20, 0x43B, 0x435, 0x442, 0x430, 0x43B, 0x44C, 0x43D, 0x43E, 0x441, 0x442, 0x44C, 0x20, 0x434, 0x43E, 0x20, 0x35, 0x30, 0x25, 0x2E],
    \<comment> \<open>Zapadnaya Afrika\<close>
    region = [0x417, 0x430, 0x43F, 0x430, 0x434, 0x43D, 0x430, 0x44F, 0x20, 0x410, 0x444, 0x440, 0x438, 0x43A, 0x430],
    severity = High\<rparr>"

definition disease_11 :: disease where
  "disease_11 = \<lparr>
    id' = js_str ''11'',
    \<comment> \<open>COVID-19\<close>
    name = js_str ''COVID-19'',
    year = 2019,
    \<comment> \<open>2019-nastoyashchee vremya\<close>
    period = [0x32, 0x30, 0x31, 0x39, 0x2D, 0x43D, 0x430, 0x441, 0x442, 0x43E, 0x44F, 0x449, 0x435, 0x435, 0x20, 0x432, 0x440, 0x435, 0x43C, 0x44F],
    \<comment> \<open>7+ mln\<close>
    deaths = [0x37, 0x2B, 0x20, 0x43C, 0x43B, 0x43D],
    \<comment> \<open>770+ mln\<close>
    affected = [0x37, 0x37, 0x30, 0x2B, 0x20, 0x43C, 0x43B, 0x43D],
    \<comment> \<open>Pandemiya koronavirusnoy infektsii, vyzvavshaya globalnyy krizis zdravookhraneniya i ekonomiki.\<close>
    description = [0x41F, 0x430, 0x43D, 0x434, 0x435, 0x43C, 0x438, 0x44F, 0x20, 0x43A, 0x43E, 0x440, 0x43E, 0x43D, 0x430, 0x432, 0x438, 0x440, 0x443, 0x441, 0x43D, 0x43E, 0x439, 0x20, 0x438, 0x43D, 0x444, 0x435, 0x43A, 0x446, 0x438, 0x438, 0x2C, 0x20, 0x432, 0x44B, 0x437, 0x432, 0x430, 0x432, 0x448, 0x430, 0x44F, 0x20, 0x433, 0x43B, 0x43E, 0x431, 0x430, 0x43B, 0x44C, 0x43D, 0x44B, 0x439, 0x20, 0x43A, 0x440, 0x438, 0x437, 0x438, 0x441, 0x20, 0x437, 0x434, 0x440, 0x430, 0x432, 0x43E, 0x43E, 0x445, 0x440, 0x430, 0x43D, 0x435, 0x43D, 0x438, 0x44F, 0x20, 0x438, 0x20, 0x44D, 0x43A, 0x43E, 0x43D, 0x43E, 0x43C, 0x438, 0x43A, 0x438, 0x2E],
    \<comment> \<open>Ves mir\<close>
    region = [0x412, 0x435, 0x441, 0x44C, 0x20, 0x43C, 0x438, 0x440],
    severity = Critical\<rparr>"

definition diseases :: "disease list" where
  "diseases = [disease_1, disease_2, disease_3, disease_4, disease_5, disease_6,
     disease_7, disease_8, disease_9, disease_10, disease_11]"

declare disease_1_def [dataset_defs] disease_2_def [dataset_defs] disease_3_def [dataset_defs]
  disease_4_def [dataset_defs] disease_5_def [dataset_defs] disease_6_def [dataset_defs]
  disease_7_def [dataset_defs] disease_8_def [dataset_defs] disease_9_def [dataset_defs]
  disease_10_def [dataset_defs] disease_11_def [dataset_defs]

subsection \<open>Projections of the dataset\<close>

lemma disease_fields [simp]:
  "id' disease_1 = js_str ''1''" "year disease_1 = 541" "severity disease_1 = Critical"
  "id' disease_2 = js_str ''2''" "year disease_2 = 1347" "severity disease_2 = Critical"
  "id' disease_3 = js_str ''3''" "year disease_3 = 1520" "severity disease_3 = Critical"
  "id' disease_4 = js_str ''4''" "year disease_4 = 1817" "severity disease_4 = High"
  "id' disease_5 = js_str ''5''" "year disease_5 = 1918" "severity disease_5 = Critical"
  "id' disease_6 = js_str ''6''" "year disease_6 = 1957" "severity disease_6 = High"
  "id' disease_7 = js_str ''7''" "year disease_7 = 1981" "severity disease_7 = Critical"
  "id' disease_8 = js_str ''8''" "year disease_8 = 2002" "severity disease_8 = Moderate"
  "id' disease_9 = js_str ''9''" "year disease_9 = 2009" "severity disease_9 = High"
  "id' disease_10 = js_str ''10''" "year disease_10 = 2014" "severity disease_10 = High"
  "id' disease_11 = js_str ''11''" "year disease_11 = 2019" "severity disease_11 = Critical"
  by (simp_all add: dataset_defs)

lemma diseases_years:
  "map year diseases = [541, 1347, 1520, 1817, 1918, 1957, 1981, 2002, 2009, 2014, 2019]"
  by (simp add: diseases_def)

lemma diseases_ids:
  "map id' diseases =
     [js_str ''1'', js_str ''2'', js_str ''3'', js_str ''4'', js_str ''5'', js_str ''6'',
      js_str ''7'', js_str ''8'', js_str ''9'', js_str ''10'', js_str ''11'']"
  by (simp add: diseases_def)

lemma length_diseases [simp]: "length diseases = 11"
  by (simp add: diseases_def)

lemma distinct_ids_diseases: "distinct (map id' diseases)"
  by (simp add: diseases_ids)

subsection \<open>Properties\<close>

end
