(* ===== verification/Century.thy ===== *)
theory Century
  imports Disease
begin

text \<open>
  The values the page derives from the dataset on every render
  (src/src/pages/Index.tsx, lines 176--184): \<open>getCentury\<close> (\<open>Math.ceil(year / 100)\<close>,
  the division taken exactly), \<open>filteredDiseases\<close> for the current value of the
  \<open>filterCentury\<close> state (a string: \<open>"all"\<close> or a century's decimal form), and
  \<open>centuries\<close>, the distinct centuries in the order \<open>Array.from(new Set(...)).sort()\<close>
  leaves them. The lemmas show that \<open>getCentury\<close> is integer ceiling division, that
  filtering by the decimal string is filtering by the century number, that every
  century offered as a filter shows at least one record, and that the default sort
  orders the centuries as strings, not as numbers.
\<close>

definition getCentury :: "int \<Rightarrow> int" where
  "getCentury y = \<lceil>real_of_int y / 100\<rceil>"

definition filteredDiseases :: "jsstr \<Rightarrow> disease list" where
  "filteredDiseases fc =
     (if fc = js_str ''all'' then diseases
      else filter (\<lambda>d. num_to_string (getCentury (year d)) = fc) diseases)"

definition centuries :: "int list" where
  "centuries = js_sort_default (array_from_set (map (\<lambda>d. getCentury (year d)) diseases))"

subsection \<open>Century arithmetic\<close>

lemma getCentury_eq_div [page_simps]: "getCentury y = (y + 99) div 100"
proof -
  have c: "getCentury y = - (- y div 100)"
    using ceiling_divide_eq_div [of y 100] by (simp add: getCentury_def)
  have "100 * ((y + 99) div 100) \<le> y + 99" "y + 99 < 100 * ((y + 99) div 100) + 100"
       "100 * (- y div 100) \<le> - y" "- y < 100 * (- y div 100) + 100"
    by simp_all
  with c show ?thesis by linarith
qed

subsection \<open>The century strings\<close>

lemma parse_int_all: "parse_int (js_str ''all'') = None"
  by (simp add: parse_int_def parse_digit_def js_str_simps)

lemma num_to_string_not_all [simp]: "num_to_string c \<noteq> js_str ''all''"
proof
  assume eq: "num_to_string c = js_str ''all''"
  have "unat (hd (js_str ''all'')) = 97"
    by (simp add: js_str_simps unat_char_unit)
  with eq unat_hd_num_to_string [of c] show False
    by simp
qed

lemma all_not_num_to_string [simp]: "js_str ''all'' \<noteq> num_to_string c"
  using num_to_string_not_all [of c] by metis

subsection \<open>Evaluation on the dataset\<close>

lemma diseases_centuries:
  "map (\<lambda>d. getCentury (year d)) diseases = [6, 14, 16, 19, 20, 20, 20, 21, 21, 21, 21]"
  by (simp add: diseases_def getCentury_eq_div)

lemma centuries_unsorted_set:
  "array_from_set (map (\<lambda>d. getCentury (year d)) diseases) = [6, 14, 16, 19, 20, 21]"
  by (simp add: diseases_centuries array_from_set_def set_add_def)

lemma centuries_eval [page_simps]: "centuries = [14, 16, 19, 20, 21, 6]"
  unfolding centuries_def centuries_unsorted_set
  by (simp add: js_sort_default_def num_to_string_def nat_digits.simps digit_unit_def)

lemma distinct_centuries: "distinct centuries"
  unfolding centuries_def
  by (metis distinct_array_from_set mset_js_sort_default mset_eq_imp_distinct_iff)

lemma set_centuries: "set centuries = (\<lambda>d. getCentury (year d)) ` set diseases"
proof -
  have "set centuries = set (array_from_set (map (\<lambda>d. getCentury (year d)) diseases))"
    unfolding centuries_def by (metis mset_js_sort_default set_mset_mset)
  then show ?thesis by simp
qed

subsection \<open>Properties\<close>

text \<open>C1. Filtering by a century's button string keeps exactly the records of that
  century, in the dataset's order: comparing the decimal strings, as the code does, is
  comparing the century numbers.\<close>

theorem filteredDiseases_century:
  "filteredDiseases (num_to_string c) = filter (\<lambda>d. getCentury (year d) = c) diseases"
  by (simp add: filteredDiseases_def)

theorem filteredDiseases_century_witness:
  "filteredDiseases (num_to_string 14) = [disease_2]"
  using filteredDiseases_century [of 14] by (simp add: diseases_def getCentury_eq_div)

text \<open>C2. The page lists the whole dataset, in its order, exactly when the filter is at
  \<open>"all"\<close>: no other filter value shows every record.\<close>

theorem filteredDiseases_all: "filteredDiseases fc = diseases \<longleftrightarrow> fc = js_str ''all''"
proof
  assume full: "filteredDiseases fc = diseases"
  show "fc = js_str ''all''"
  proof (rule ccontr)
    assume ne: "fc \<noteq> js_str ''all''"
    with full have "filter (\<lambda>d. num_to_string (getCentury (year d)) = fc) diseases = diseases"
      by (simp add: filteredDiseases_def)
    then have "\<forall>d \<in> set diseases. num_to_string (getCentury (year d)) = fc"
      by (simp add: filter_id_conv)
    then have "num_to_string (getCentury (year disease_1)) = num_to_string (getCentury (year disease_2))"
      by (simp add: diseases_def)
    then show False by (simp add: getCentury_eq_div)
  qed
next
  assume "fc = js_str ''all''"
  then show "filteredDiseases fc = diseases" by (simp add: filteredDiseases_def)
qed

theorem filteredDiseases_all_witness:
  "filteredDiseases (js_str ''all'') = diseases \<and> filteredDiseases (num_to_string 20) \<noteq> diseases"
  using filteredDiseases_all [of "js_str ''all''"] filteredDiseases_all [of "num_to_string 20"] by simp

text \<open>C17. A filter value that no button produces selects nothing instead of failing:
  the list of cards is empty exactly when the filter is neither \<open>"all"\<close> nor the
  string of a listed century (for instance \<open>"06"\<close> or \<open>"7"\<close>).\<close>

theorem filteredDiseases_empty_iff:
  "filteredDiseases fc = [] \<longleftrightarrow> fc \<noteq> js_str ''all'' \<and> fc \<notin> num_to_string ` set centuries"
  by (auto simp: filteredDiseases_def filter_empty_conv set_centuries diseases_def)

end
