(* ===== verification/Browser.thy ===== *)
theory Browser
  imports Century
begin

text \<open>
  The state of the \<open>Index\<close> component (src/src/pages/Index.tsx, lines 146--147) and
  the three click handlers that change it (lines 233, 245 and 270--274), as a
  deterministic step function over an event datatype. An event is enabled when the
  control it clicks is on the rendered page: the "all" button always, a century button
  for each entry of \<open>centuries\<close>, a card for each record of \<open>filteredDiseases\<close>.
  \<open>reachable\<close> is the least set of states holding the initial state and closed under
  enabled events. The invariant \<open>page_inv\<close> says that the filter holds \<open>"all"\<close> or
  the string of a listed century and that a selected record is one of the dataset; it
  characterises the reachable states exactly. The selection handler compares
  identifiers (\<open>selectedDisease?.id === disease.id\<close>); with the dataset's distinct
  identifiers this is comparison of records.
\<close>

record page_state =
  selectedDisease :: "disease option"
  filterCentury :: jsstr

definition init_state :: page_state where
  "init_state = \<lparr>selectedDisease = None, filterCentury = js_str ''all''\<rparr>"

definition is_selected :: "disease option \<Rightarrow> disease \<Rightarrow> bool" where
  "is_selected sel d = (case sel of None \<Rightarrow> False | Some s \<Rightarrow> id' s = id' d)"

datatype event = ClickAll | ClickCentury int | ClickCard disease

fun step :: "page_state \<Rightarrow> event \<Rightarrow> page_state" where
  "step s ClickAll = s\<lparr>filterCentury := js_str ''all''\<rparr>"
| "step s (ClickCentury c) = s\<lparr>filterCentury := num_to_string c\<rparr>"
| "step s (ClickCard d) =
     s\<lparr>selectedDisease := (if is_selected (selectedDisease s) d then None else Some d)\<rparr>"

definition enabled :: "page_state \<Rightarrow> event \<Rightarrow> bool" where
  "enabled s e =
     (case e of
        ClickAll \<Rightarrow> True
      | ClickCentury c \<Rightarrow> c \<in> set centuries
      | ClickCard d \<Rightarrow> d \<in> set (filteredDiseases (filterCentury s)))"

inductive reachable :: "page_state \<Rightarrow> bool" where
  init: "reachable init_state"
| click: "reachable s \<Longrightarrow> enabled s e \<Longrightarrow> reachable (step s e)"

definition page_inv :: "page_state \<Rightarrow> bool" where
  "page_inv s \<longleftrightarrow>
     filterCentury s \<in> insert (js_str ''all'') (num_to_string ` set centuries) \<and>
     pred_option (\<lambda>d. d \<in> set diseases) (selectedDisease s)"

fun run :: "page_state \<Rightarrow> event list \<Rightarrow> page_state option" where
  "run s [] = Some s"
| "run s (e # es) = (if enabled s e then run (step s e) es else None)"

subsection \<open>The invariant\<close>

lemma filteredDiseases_subset: "set (filteredDiseases fc) \<subseteq> set diseases"
  by (auto simp: filteredDiseases_def)

lemma page_inv_init: "page_inv init_state"
  by (simp add: page_inv_def init_state_def)

lemma page_inv_step: "page_inv s \<Longrightarrow> enabled s e \<Longrightarrow> page_inv (step s e)"
  using filteredDiseases_subset
  by (cases e) (auto simp: page_inv_def enabled_def)

lemma reachable_inv: "reachable s \<Longrightarrow> page_inv s"
proof (induction rule: reachable.induct)
  case init
  show ?case by (rule page_inv_init)
next
  case (click s e)
  from click.IH click.hyps(2) show ?case by (rule page_inv_step)
qed

lemma inv_filtered_nonempty: "page_inv s \<Longrightarrow> filteredDiseases (filterCentury s) \<noteq> []"
  by (auto simp: page_inv_def set_centuries filteredDiseases_def filter_empty_conv diseases_def)

lemma is_selected_dataset:
  assumes "pred_option (\<lambda>d. d \<in> set diseases) sel" and "d \<in> set diseases"
  shows "is_selected sel d \<longleftrightarrow> sel = Some d"
proof (cases sel)
  case None
  then show ?thesis by (simp add: is_selected_def)
next
  case (Some x)
  with assms have "x \<in> set diseases" by simp
  with assms(2) distinct_ids_diseases have "id' x = id' d \<longleftrightarrow> x = d"
    by (metis distinct_map inj_onD)
  with Some show ?thesis by (simp add: is_selected_def)
qed

lemma reachable_all_filter:
  assumes "pred_option (\<lambda>d. d \<in> set diseases) sel"
  shows "reachable \<lparr>selectedDisease = sel, filterCentury = js_str ''all''\<rparr>"
proof (cases sel)
  case None
  then show ?thesis using reachable.init by (simp add: init_state_def)
next
  case (Some d)
  with assms have "d \<in> set diseases" by simp
  then have "enabled init_state (ClickCard d)"
    by (simp add: enabled_def init_state_def filteredDiseases_def)
  with reachable.init have "reachable (step init_state (ClickCard d))"
    by (rule reachable.click)
  with Some show ?thesis by (simp add: init_state_def is_selected_def)
qed

lemma inv_reachable: "page_inv s \<Longrightarrow> reachable s"
proof -
  assume inv: "page_inv s"
  obtain sel fc where s: "s = \<lparr>selectedDisease = sel, filterCentury = fc\<rparr>"
    by (cases s) simp
  with inv have sel: "pred_option (\<lambda>d. d \<in> set diseases) sel"
    and fc: "fc \<in> insert (js_str ''all'') (num_to_string ` set centuries)"
    by (simp_all add: page_inv_def)
  have r: "reachable \<lparr>selectedDisease = sel, filterCentury = js_str ''all''\<rparr>"
    using sel by (rule reachable_all_filter)
  show "reachable s"
  proof (cases "fc = js_str ''all''")
    case True
    with r s show ?thesis by simp
  next
    case False
    with fc obtain c where c: "c \<in> set centuries" and fc_c: "fc = num_to_string c"
      by auto
    from c have "enabled \<lparr>selectedDisease = sel, filterCentury = js_str ''all''\<rparr> (ClickCentury c)"
      by (simp add: enabled_def)
    with r have "reachable (step \<lparr>selectedDisease = sel, filterCentury = js_str ''all''\<rparr> (ClickCentury c))"
      by (rule reachable.click)
    with s fc_c show ?thesis by simp
  qed
qed

subsection \<open>Runs of events\<close>

lemma enabled_ClickAll [simp]: "enabled s ClickAll"
  by (simp add: enabled_def)

lemma enabled_ClickCard_all [simp]:
  "filterCentury s = js_str ''all'' \<Longrightarrow> enabled s (ClickCard d) \<longleftrightarrow> d \<in> set diseases"
  by (simp add: enabled_def filteredDiseases_def)

lemma run_append:
  "run s (es @ [e]) = (case run s es of None \<Rightarrow> None | Some t \<Rightarrow> if enabled t e then Some (step t e) else None)"
  by (induction es arbitrary: s) (simp_all split: option.split)

lemma run_reachable: "reachable s \<Longrightarrow> run s es = Some t \<Longrightarrow> reachable t"
proof (induction es arbitrary: s)
  case Nil
  then show ?case by simp
next
  case (Cons e es)
  then have "enabled s e" and "run (step s e) es = Some t"
    by (simp_all split: if_splits)
  with Cons.prems(1) Cons.IH show ?case
    by (blast intro: reachable.click)
qed

lemma reachable_run: "reachable t \<Longrightarrow> \<exists>es. run init_state es = Some t"
proof (induction rule: reachable.induct)
  case init
  have "run init_state [] = Some init_state" by simp
  then show ?case by blast
next
  case (click s e)
  then obtain es where "run init_state es = Some s" by blast
  with click.hyps(2) have "run init_state (es @ [e]) = Some (step s e)"
    by (simp add: run_append)
  then show ?case by blast
qed

subsection \<open>Properties\<close>

text \<open>C3. The reachable states of the page are exactly those satisfying the invariant: the
  filter holds \<open>"all"\<close> or the string of a listed century, and the selection is empty
  or a record of the dataset. Every such combination can be reached, and no other.\<close>

theorem reachable_iff: "reachable s \<longleftrightarrow> page_inv s"
  by (blast intro: reachable_inv inv_reachable)

theorem reachable_iff_witness:
  "reachable \<lparr>selectedDisease = Some disease_4, filterCentury = num_to_string 19\<rparr>"
proof -
  have "page_inv \<lparr>selectedDisease = Some disease_4, filterCentury = num_to_string 19\<rparr>"
    by (simp add: page_inv_def page_simps diseases_def)
  then show ?thesis using reachable_iff by blast
qed

text \<open>C4. In every reachable state the list of cards is non-empty: the user can never
  filter the page down to no records.\<close>

theorem reachable_filtered_nonempty: "reachable s \<Longrightarrow> filteredDiseases (filterCentury s) \<noteq> []"
  using reachable_inv inv_filtered_nonempty by metis

theorem reachable_filtered_nonempty_witness:
  "reachable (step init_state (ClickCentury 6)) \<and>
   filteredDiseases (filterCentury (step init_state (ClickCentury 6))) \<noteq> []"
proof -
  have "enabled init_state (ClickCentury 6)"
    by (simp add: enabled_def page_simps)
  with reachable.init have r: "reachable (step init_state (ClickCentury 6))"
    by (rule reachable.click)
  show ?thesis using reachable_filtered_nonempty [OF r] r by simp
qed

text \<open>C5. Clicking a visible card in a reachable state toggles the selection: it clears
  the selection when that record is the selected one and selects it otherwise. The code
  compares identifiers; since the identifiers are distinct this is record equality.\<close>

theorem step_card_reachable:
  assumes "reachable s" and "d \<in> set (filteredDiseases (filterCentury s))"
  shows "selectedDisease (step s (ClickCard d)) = (if selectedDisease s = Some d then None else Some d)"
proof -
  from assms(1) have "pred_option (\<lambda>d. d \<in> set diseases) (selectedDisease s)"
    by (auto dest: reachable_inv simp: page_inv_def)
  moreover from assms(2) have "d \<in> set diseases"
    using filteredDiseases_subset by blast
  ultimately show ?thesis by (simp add: is_selected_dataset)
qed

theorem step_card_reachable_witness:
  "reachable init_state \<and> disease_1 \<in> set (filteredDiseases (filterCentury init_state)) \<and>
   selectedDisease (step init_state (ClickCard disease_1)) = Some disease_1"
proof -
  have d: "disease_1 \<in> set (filteredDiseases (filterCentury init_state))"
    by (simp add: init_state_def filteredDiseases_def diseases_def)
  show ?thesis
    using step_card_reachable [OF reachable.init d] reachable.init d by (simp add: init_state_def)
qed

text \<open>C13. Every record stays within reach: from any reachable state at most two clicks
  on controls of the page (the "all" button, then the record's card unless it is already
  selected) show the record's card expanded.\<close>

theorem reachable_expand_any:
  assumes "reachable s" and "d \<in> set diseases"
  shows "\<exists>es t. length es \<le> 2 \<and> run s es = Some t \<and> selectedDisease t = Some d \<and>
           d \<in> set (filteredDiseases (filterCentury t))"
proof -
  have sel: "pred_option (\<lambda>d. d \<in> set diseases) (selectedDisease s)"
    using reachable_inv [OF assms(1)] by (simp add: page_inv_def)
  show ?thesis
  proof (cases "selectedDisease s = Some d")
    case True
    then have "run s [ClickAll] = Some (s\<lparr>filterCentury := js_str ''all''\<rparr>)"
      by simp
    with True assms(2) show ?thesis
      by (intro exI [of _ "[ClickAll]"]) (simp add: filteredDiseases_def)
  next
    case False
    with sel assms(2) have "\<not> is_selected (selectedDisease s) d"
      by (simp add: is_selected_dataset)
    with assms(2) have "run s [ClickAll, ClickCard d] =
        Some (s\<lparr>filterCentury := js_str ''all'', selectedDisease := Some d\<rparr>)"
      by simp
    with assms(2) show ?thesis
      by (intro exI [of _ "[ClickAll, ClickCard d]"]) (simp add: filteredDiseases_def)
  qed
qed

theorem reachable_expand_any_witness:
  "\<exists>es t. length es \<le> 2 \<and> run (step init_state (ClickCentury 6)) es = Some t \<and>
     selectedDisease t = Some disease_9 \<and> disease_9 \<in> set (filteredDiseases (filterCentury t))"
proof -
  have r: "reachable (step init_state (ClickCentury 6))"
    using reachable.init by (rule reachable.click) (simp add: enabled_def page_simps)
  have d: "disease_9 \<in> set diseases" by (simp add: diseases_def)
  show ?thesis using reachable_expand_any [OF r d] .
qed

text \<open>C14. The page can always be returned to its initial state: from any reachable
  state at most two clicks (the "all" button, then the selected card if there is one)
  reset both the filter and the selection.\<close>

theorem reachable_home:
  assumes "reachable s"
  shows "\<exists>es. length es \<le> 2 \<and> run s es = Some init_state"
proof (cases "selectedDisease s")
  case None
  then have "run s [ClickAll] = Some init_state"
    by (cases s) (simp add: init_state_def)
  then show ?thesis by (intro exI [of _ "[ClickAll]"]) simp
next
  case (Some d)
  with reachable_inv [OF assms] have d: "d \<in> set diseases"
    by (simp add: page_inv_def)
  with Some have "run s [ClickAll, ClickCard d] = Some init_state"
    by (cases s) (simp add: init_state_def is_selected_def)
  then show ?thesis by (intro exI [of _ "[ClickAll, ClickCard d]"]) simp
qed

theorem reachable_home_witness:
  "\<exists>es. length es \<le> 2 \<and> run (step init_state (ClickCard disease_2)) es = Some init_state"
proof -
  have "reachable (step init_state (ClickCard disease_2))"
    using reachable.init by (rule reachable.click)
      (simp add: enabled_def init_state_def filteredDiseases_def diseases_def)
  then show ?thesis by (rule reachable_home)
qed

end
