(* ===== verification/Severity.thy ===== *)
theory Severity
  imports Disease
begin

text \<open>
  The severity helpers of the page (src/src/pages/Index.tsx, lines 150--174) and the
  statistics panel's counts (lines 367, 382, 397). \<open>getSeverityColor\<close> and
  \<open>getSeverityLabel\<close> take any string, as their TypeScript signatures do, and fall back
  to a default for a string that is none of the three tags. \<open>severity_count tag ds\<close> is
  \<open>ds.filter((d) => d.severity === tag).length\<close>. The lemmas show that the defaults
  are never reached from a record's severity, that the three tags get three different
  labels and colours, and that the three counts partition any list of records.
\<close>

definition getSeverityColor :: "jsstr \<Rightarrow> jsstr" where
  "getSeverityColor s =
     (if s = js_str ''critical'' then js_str ''bg-red-500/20 text-red-400 border-red-500/50''
      else if s = js_str ''high'' then js_str ''bg-orange-500/20 text-orange-400 border-orange-500/50''
      else if s = js_str ''moderate'' then js_str ''bg-yellow-500/20 text-yellow-400 border-yellow-500/50''
      else js_str ''bg-gray-500/20 text-gray-400 border-gray-500/50'')"

definition getSeverityLabel :: "jsstr \<Rightarrow> jsstr" where
  "getSeverityLabel s =
     (if s = js_str ''critical'' then
        \<comment> \<open>Kriticheskiy\<close>
        [0x41A, 0x440, 0x438, 0x442, 0x438, 0x447, 0x435, 0x441, 0x43A, 0x438, 0x439]
      else if s = js_str ''high'' then
        \<comment> \<open>Vysokiy\<close>
        [0x412, 0x44B, 0x441, 0x43E, 0x43A, 0x438, 0x439]
      else if s = js_str ''moderate'' then
        \<comment> \<open>Umerennyy\<close>
        [0x423, 0x43C, 0x435, 0x440, 0x435, 0x43D, 0x43D, 0x44B, 0x439]
      else
        \<comment> \<open>Neizvestno\<close>
        [0x41D, 0x435, 0x438, 0x437, 0x432, 0x435, 0x441, 0x442, 0x43D, 0x43E])"

definition severity_count :: "jsstr \<Rightarrow> disease list \<Rightarrow> nat" where
  "severity_count tag ds = length (filter (\<lambda>d. severity_str (severity d) = tag) ds)"

subsection \<open>The three tags\<close>

lemma severity_str_distinct [simp]:
  "severity_str a = severity_str b \<longleftrightarrow> a = b"
  by (cases a; cases b) simp_all

lemma severity_str_tags:
  "severity_str v = js_str ''critical'' \<longleftrightarrow> v = Critical"
  "severity_str v = js_str ''high'' \<longleftrightarrow> v = High"
  "severity_str v = js_str ''moderate'' \<longleftrightarrow> v = Moderate"
  by (cases v; simp)+

lemma getSeverityLabel_tags:
  "getSeverityLabel (js_str ''critical'') =
     [0x41A, 0x440, 0x438, 0x442, 0x438, 0x447, 0x435, 0x441, 0x43A, 0x438, 0x439]"
  "getSeverityLabel (js_str ''high'') = [0x412, 0x44B, 0x441, 0x43E, 0x43A, 0x438, 0x439]"
  "getSeverityLabel (js_str ''moderate'') =
     [0x423, 0x43C, 0x435, 0x440, 0x435, 0x43D, 0x43D, 0x44B, 0x439]"
  by (simp_all add: getSeverityLabel_def)

lemma getSeverityLabel_default:
  "getSeverityLabel [] = [0x41D, 0x435, 0x438, 0x437, 0x432, 0x435, 0x441, 0x442, 0x43D, 0x43E]"
  by (simp add: getSeverityLabel_def js_str_simps)

lemma length_filter_severity:
  "length (filter (\<lambda>d. severity d = Critical) ds) + length (filter (\<lambda>d. severity d = High) ds)
     + length (filter (\<lambda>d. severity d = Moderate) ds) = length ds"
proof (induction ds)
  case Nil
  then show ?case by simp
next
  case (Cons d ds)
  then show ?case by (cases "severity d") simp_all
qed

subsection \<open>Properties\<close>

text \<open>The statistics panel counts 6 critical, 4 high and 1 moderate pandemic in the
  dataset (the specification's test states 5 critical, which would not sum to 11).\<close>

lemma severity_counts_dataset:
  "severity_count (js_str ''critical'') diseases = 6 \<and>
   severity_count (js_str ''high'') diseases = 4 \<and>
   severity_count (js_str ''moderate'') diseases = 1"
  by (simp add: severity_count_def diseases_def severity_str_tags)

text \<open>For any list of records the three counts of the statistics panel add up to the
  length of the list: every record is counted under exactly one tag.\<close>

lemma severity_counts_total:
  "severity_count (js_str ''critical'') ds + severity_count (js_str ''high'') ds
     + severity_count (js_str ''moderate'') ds = length ds"
  using length_filter_severity [of ds] by (simp add: severity_count_def severity_str_tags)

text \<open>C15. A record's severity never falls through to the default label
  (\<open>"Neizvestno"\<close>), and the three severities get three different labels.\<close>

theorem getSeverityLabel_total:
  "getSeverityLabel (severity_str v) \<noteq> getSeverityLabel [] \<and>
   (getSeverityLabel (severity_str v) = getSeverityLabel (severity_str w) \<longleftrightarrow> v = w)"
  by (cases v; cases w) (simp_all add: getSeverityLabel_tags getSeverityLabel_default)

theorem getSeverityLabel_total_witness:
  "getSeverityLabel (severity_str Critical) \<noteq> getSeverityLabel (severity_str High)"
  using getSeverityLabel_total [of Critical High] by simp

text \<open>Likewise every severity has its own badge colour and never the grey default.\<close>

lemma getSeverityColor_total:
  "getSeverityColor (severity_str v) \<noteq> getSeverityColor [] \<and>
   (getSeverityColor (severity_str v) = getSeverityColor (severity_str w) \<longleftrightarrow> v = w)"
  by (cases v; cases w) (simp_all add: getSeverityColor_def js_str_simps)

text \<open>C16. The default branch of both switches is taken exactly for the strings that are
  none of the three tags: such a severity gets the label \<open>"Neizvestno"\<close> and the
  grey badge, and no tag does.\<close>

theorem severity_default_iff:
  "(getSeverityLabel s = getSeverityLabel []) =
     (s \<notin> {js_str ''critical'', js_str ''high'', js_str ''moderate''}) \<and>
   (getSeverityColor s = getSeverityColor []) =
     (s \<notin> {js_str ''critical'', js_str ''high'', js_str ''moderate''})"
  by (auto simp: getSeverityLabel_def getSeverityColor_def js_str_simps)

end
