(* ===== verification/View.thy ===== *)
theory View
  imports Browser Severity
begin

text \<open>
  What the page renders for a state (src/src/pages/Index.tsx, lines 186--414), kept to
  the values the markup shows and the handlers it binds; layout, class names of the
  containers, icons other than the cards' chevrons, and the fixed headings are
  omitted. \<open>render currentUrl s\<close> gives the QR dialog's value and caption (the page's
  own URL, read from \<open>window.location.href\<close>, here a parameter), the filter buttons
  (the "all" button, then one per entry of \<open>centuries\<close>), one card per record of
  \<open>filteredDiseases\<close> with its position in the list (the animation delay), and the
  statistics panel's three counts. The lemmas show that the cards are the visible
  records in order, that at most one card is expanded and that it is the selected
  record's, that exactly one filter button is highlighted in every reachable state, and
  that the statistics ignore the filter.
\<close>

record filter_button =
  fb_label :: jsstr
  fb_active :: bool
  fb_click :: event

record card_view =
  card_key :: jsstr
  card_title :: jsstr
  card_subtitle :: jsstr
  badge_class :: jsstr
  badge_label :: jsstr
  card_deaths :: jsstr
  card_affected :: jsstr
  card_description :: "jsstr option"
  card_start :: jsstr
  card_chevron :: jsstr
  card_highlighted :: bool
  card_index :: nat
  card_click :: event

record stats_view =
  stat_critical :: nat
  stat_high :: nat
  stat_moderate :: nat

record page_view =
  qr_value :: jsstr
  qr_text :: jsstr
  filter_buttons :: "filter_button list"
  cards :: "card_view list"
  stats :: stats_view

definition all_button :: "page_state \<Rightarrow> filter_button" where
  "all_button s =
     \<lparr>fb_label =
        \<comment> \<open>Vse veka\<close>
        [0x412, 0x441, 0x435, 0x20, 0x432, 0x435, 0x43A, 0x430],
      fb_active = (filterCentury s = js_str ''all''),
      fb_click = ClickAll\<rparr>"

definition century_button :: "page_state \<Rightarrow> int \<Rightarrow> filter_button" where
  "century_button s c =
     \<lparr>fb_label = num_to_string c @
        \<comment> \<open>space, vek\<close>
        [0x20, 0x432, 0x435, 0x43A],
      fb_active = (filterCentury s = num_to_string c),
      fb_click = ClickCentury c\<rparr>"

definition render_card :: "page_state \<Rightarrow> nat \<Rightarrow> disease \<Rightarrow> card_view" where
  "render_card s index d =
     (let sel = is_selected (selectedDisease s) d in
      \<lparr>card_key = id' d,
       card_title = name d,
       card_subtitle = period d @ [0x20, 0x2022, 0x20] @ region d,
       badge_class = getSeverityColor (severity_str (severity d)),
       badge_label = getSeverityLabel (severity_str (severity d)),
       card_deaths = deaths d,
       card_affected = affected d,
       card_description = (if sel then Some (description d) else None),
       card_start =
         \<comment> \<open>Nachalo, the year, god\<close>
         [0x41D, 0x430, 0x447, 0x430, 0x43B, 0x43E, 0x3A, 0x20] @ num_to_string (year d) @
         [0x20, 0x433, 0x43E, 0x434],
       card_chevron = (if sel then js_str ''ChevronUp'' else js_str ''ChevronDown''),
       card_highlighted = sel,
       card_index = index,
       card_click = ClickCard d\<rparr>)"

definition render :: "jsstr \<Rightarrow> page_state \<Rightarrow> page_view" where
  "render currentUrl s =
     \<lparr>qr_value = currentUrl,
      qr_text = currentUrl,
      filter_buttons = all_button s # map (century_button s) centuries,
      cards = map (\<lambda>(index, d). render_card s index d) (enumerate 0 (filteredDiseases (filterCentury s))),
      stats =
        \<lparr>stat_critical = severity_count (js_str ''critical'') diseases,
         stat_high = severity_count (js_str ''high'') diseases,
         stat_moderate = severity_count (js_str ''moderate'') diseases\<rparr>\<rparr>"

subsection \<open>Cards\<close>

lemma cards_render:
  "cards (render u s) =
     map (\<lambda>(index, d). render_card s index d) (enumerate 0 (filteredDiseases (filterCentury s)))"
  by (simp add: render_def)

lemma map_index_cards:
  "map card_index (cards (render u s)) = [0..<length (filteredDiseases (filterCentury s))]"
proof -
  have "map card_index (cards (render u s)) = map fst (enumerate 0 (filteredDiseases (filterCentury s)))"
    by (simp add: cards_render render_card_def Let_def case_prod_beta comp_def)
  then show ?thesis by simp
qed

lemma map_key_cards: "map card_key (cards (render u s)) = map id' (filteredDiseases (filterCentury s))"
proof -
  have "map card_key (cards (render u s)) = map (id' \<circ> snd) (enumerate 0 (filteredDiseases (filterCentury s)))"
    by (simp add: cards_render render_card_def Let_def case_prod_beta comp_def)
  also have "\<dots> = map id' (filteredDiseases (filterCentury s))"
    by (simp flip: map_map)
  finally show ?thesis .
qed

lemma expanded_cards:
  "length (filter (\<lambda>c. card_description c \<noteq> None) (cards (render u s))) =
     length (filter (is_selected (selectedDisease s)) (filteredDiseases (filterCentury s)))"
proof -
  let ?fd = "filteredDiseases (filterCentury s)"
  have "filter (\<lambda>c. card_description c \<noteq> None) (cards (render u s)) =
      map (\<lambda>(index, d). render_card s index d)
        (filter (is_selected (selectedDisease s) \<circ> snd) (enumerate 0 ?fd))"
    by (simp add: cards_render filter_map comp_def render_card_def Let_def case_prod_beta)
  then have "length (filter (\<lambda>c. card_description c \<noteq> None) (cards (render u s))) =
      length (map snd (filter (is_selected (selectedDisease s) \<circ> snd) (enumerate 0 ?fd)))"
    by simp
  also have "\<dots> = length (filter (is_selected (selectedDisease s)) ?fd)"
    by (simp only: filter_map [symmetric] map_snd_enumerate)
  finally show ?thesis .
qed

lemma distinct_ids_filtered: "distinct (map id' (filteredDiseases fc))"
  using distinct_ids_diseases by (simp add: filteredDiseases_def distinct_map_filter)

lemma is_selected_eq_key:
  "filter (is_selected sel) xs = (case sel of None \<Rightarrow> [] | Some x \<Rightarrow> filter (\<lambda>d. id' d = id' x) xs)"
  by (cases sel) (auto simp: is_selected_def intro: filter_cong)

lemma in_set_cards:
  "c \<in> set (cards (render u s)) \<longleftrightarrow>
     (\<exists>index d. (index, d) \<in> set (enumerate 0 (filteredDiseases (filterCentury s))) \<and> c = render_card s index d)"
  by (auto simp: cards_render)

subsection \<open>Filter buttons\<close>

lemma active_buttons:
  "filter fb_active (filter_buttons (render u s)) =
     (if filterCentury s = js_str ''all'' then [all_button s] else [])
     @ map (century_button s) (filter (\<lambda>c. filterCentury s = num_to_string c) centuries)"
  by (auto simp: render_def all_button_def century_button_def filter_map comp_def)

subsection \<open>Properties\<close>

text \<open>C6. At most one card shows its description, whatever the state: the expanded card
  is the one whose identifier is the selected record's, and identifiers are distinct.\<close>

theorem expanded_at_most_one:
  "length (filter (\<lambda>c. card_description c \<noteq> None) (cards (render u s))) \<le> 1"
  unfolding expanded_cards is_selected_eq_key
  using length_filter_key_distinct [OF distinct_ids_filtered]
  by (simp split: option.split)

theorem expanded_at_most_one_witness:
  "length (filter (\<lambda>c. card_description c \<noteq> None)
     (cards (render [] (step init_state (ClickCard disease_1))))) \<le> 1"
  by (rule expanded_at_most_one)

text \<open>The filter row is the "all" button followed by the centuries in the order
  \<open>[14, 16, 19, 20, 21, 6]\<close>: the 6th-century button comes last, because the
  comparator-less sort orders the numbers as strings, where the specification asks for
  ascending centuries.\<close>

lemma filter_buttons_order:
  "map fb_click (filter_buttons (render u s)) =
     [ClickAll, ClickCentury 14, ClickCentury 16, ClickCentury 19, ClickCentury 20,
      ClickCentury 21, ClickCentury 6] \<and> \<not> sorted centuries"
  by (simp add: render_def centuries_eval all_button_def century_button_def)

text \<open>C11. In a reachable state the card of a record is expanded exactly when that record
  is the selected one and the filter shows it.\<close>

theorem expanded_is_selected:
  assumes "reachable s" and "d \<in> set diseases"
  shows "(\<exists>c \<in> set (cards (render u s)). card_key c = id' d \<and> card_description c \<noteq> None) \<longleftrightarrow>
         (selectedDisease s = Some d \<and> d \<in> set (filteredDiseases (filterCentury s)))"
proof -
  let ?fd = "filteredDiseases (filterCentury s)"
  from assms(1) have sel: "pred_option (\<lambda>d. d \<in> set diseases) (selectedDisease s)"
    by (auto dest: reachable_inv simp: page_inv_def)
  have same: "d' = d" if "d' \<in> set ?fd" "id' d' = id' d" for d'
  proof -
    from that(1) have "d' \<in> set diseases" using filteredDiseases_subset by blast
    with assms(2) that(2) distinct_ids_diseases show ?thesis
      by (metis distinct_map inj_onD)
  qed
  show ?thesis
  proof
    assume "\<exists>c \<in> set (cards (render u s)). card_key c = id' d \<and> card_description c \<noteq> None"
    then obtain index d' where e: "(index, d') \<in> set (enumerate 0 ?fd)"
      and k: "id' d' = id' d" and x: "is_selected (selectedDisease s) d'"
      by (auto simp: in_set_cards render_card_def Let_def split: if_splits)
    from e have "d' \<in> set ?fd" by (auto simp: in_set_enumerate_eq)
    with k same have "d' = d" by blast
    with x sel assms(2) \<open>d' \<in> set ?fd\<close> show "selectedDisease s = Some d \<and> d \<in> set ?fd"
      by (simp add: is_selected_dataset)
  next
    assume a: "selectedDisease s = Some d \<and> d \<in> set ?fd"
    then obtain i where "i < length ?fd" and "?fd ! i = d"
      by (auto simp: in_set_conv_nth)
    then have "(i, d) \<in> set (enumerate 0 ?fd)"
      by (auto simp: in_set_enumerate_eq)
    then have "render_card s i d \<in> set (cards (render u s))"
      by (auto simp: in_set_cards)
    moreover from a have "card_key (render_card s i d) = id' d \<and> card_description (render_card s i d) \<noteq> None"
      by (simp add: render_card_def is_selected_def)
    ultimately show "\<exists>c \<in> set (cards (render u s)). card_key c = id' d \<and> card_description c \<noteq> None"
      by blast
  qed
qed

theorem expanded_is_selected_witness:
  "reachable (step init_state (ClickCard disease_2)) \<and> disease_2 \<in> set diseases \<and>
   (\<exists>c \<in> set (cards (render [] (step init_state (ClickCard disease_2)))).
      card_key c = id' disease_2 \<and> card_description c \<noteq> None)"
proof -
  have d: "disease_2 \<in> set diseases" by (simp add: diseases_def)
  then have "enabled init_state (ClickCard disease_2)"
    by (simp add: enabled_def init_state_def filteredDiseases_def)
  with reachable.init have r: "reachable (step init_state (ClickCard disease_2))"
    by (rule reachable.click)
  have "selectedDisease (step init_state (ClickCard disease_2)) = Some disease_2 \<and>
      disease_2 \<in> set (filteredDiseases (filterCentury (step init_state (ClickCard disease_2))))"
    using d by (simp add: init_state_def is_selected_def filteredDiseases_def)
  then show ?thesis
    using expanded_is_selected [OF r d, of "[]"] r d by blast
qed

text \<open>C12. In every reachable state exactly one filter button is highlighted: the "all"
  button when the filter is \<open>"all"\<close>, else the button of the chosen century.\<close>

theorem one_active_button:
  "reachable s \<Longrightarrow> length (filter fb_active (filter_buttons (render u s))) = 1"
proof -
  assume "reachable s"
  then have inv: "filterCentury s \<in> insert (js_str ''all'') (num_to_string ` set centuries)"
    by (auto dest: reachable_inv simp: page_inv_def)
  show ?thesis
  proof (cases "filterCentury s = js_str ''all''")
    case True
    then show ?thesis by (simp add: active_buttons)
  next
    case False
    with inv obtain c where c: "c \<in> set centuries" and fc: "filterCentury s = num_to_string c"
      by auto
    have "filter (\<lambda>x. c = x) centuries = [c]"
      using distinct_centuries c by (rule filter_eq_single)
    with False fc show ?thesis
      by (simp add: active_buttons)
  qed
qed

theorem one_active_button_witness:
  "reachable init_state \<and> length (filter fb_active (filter_buttons (render [] init_state))) = 1"
  using one_active_button [OF reachable.init, of "[]"] reachable.init by simp

end
