(* ===== verification/Binary64.thy ===== *)
theory Binary64
  imports Century
begin

text \<open>
  \<open>getCentury\<close> (src/src/pages/Index.tsx, lines 176--178) computes
  \<open>Math.ceil(year / 100)\<close> on JavaScript numbers, IEEE-754 binary64 values. The other
  theories take the quotient exactly. This theory models the division as the engine
  performs it. The exact quotient \<open>|x| / d\<close> is scaled by powers of two until it lies in
  \<open>[2^52, 2^53)\<close> (\<open>normalise\<close>, a loop that does not return for a zero
  numerator, hence \<open>partial_function (option)\<close>). It is then rounded to an integer
  significand, to nearest with ties to even (\<open>round_half_even\<close>, the rounding mode of
  \<open>/\<close>), and \<open>Math.ceil\<close> is applied to the resulting binary64 value
  (\<open>ceil_double\<close>). Years are integers, so they are exact binary64 values up to
  \<open>2^53\<close>. The quotient of such a year by 100 is neither subnormal nor beyond the
  exponent range, so the model omits both. The lemmas show that the loop returns a
  normalised quotient for every positive numerator and divisor, and that rounding is to
  nearest. They also show that the binary64 century equals the exact ceiling for
  \<open>|year| \<le> 2^53\<close>, which covers every safe integer and so the whole dataset.
  Beyond that bound the rounding shows through: one exact binary64 integer gets a
  century 92 above \<open>\<lceil>year / 100\<rceil>\<close>. The real value of a binary64 pair
  (\<open>bval\<close>) lets the number printer of NumberFormat state when \<open>fl_round\<close>
  lands on a given value: whenever the quotient lies within half a unit in the last place of
  a normalised \<open>M * 2^E\<close> (a quarter at the lower edge of a binade), the rounding
  returns exactly that value (\<open>fl_round_to_value\<close>).
\<close>

type_synonym binary64 = "int \<times> int" \<comment> \<open>significand and exponent: the value is \<open>m * 2 ^ e\<close>\<close>

partial_function (option) normalise :: "int \<Rightarrow> int \<Rightarrow> int \<Rightarrow> (int \<times> int \<times> int) option" where
  "normalise n d e =
     (if n < 2 ^ 52 * d then normalise (2 * n) d (e - 1)
      else if 2 ^ 53 * d \<le> n then normalise n (2 * d) (e + 1)
      else Some (n, d, e))"

definition round_half_even :: "int \<Rightarrow> int \<Rightarrow> int" where
  "round_half_even n d =
     (let q = n div d; r = n mod d in
      if 2 * r < d then q else if d < 2 * r then q + 1 else if even q then q else q + 1)"

definition fl_round :: "int \<Rightarrow> int \<Rightarrow> int \<Rightarrow> binary64 option" where
  "fl_round x d e =
     (if x = 0 then Some (0, 0)
      else map_option (\<lambda>(n, d', e'). (sgn x * round_half_even n d', e')) (normalise \<bar>x\<bar> d e))"

definition fl_div :: "int \<Rightarrow> int \<Rightarrow> binary64 option" where
  "fl_div x d = fl_round x d 0"

definition ceil_double :: "binary64 \<Rightarrow> int" where
  "ceil_double b =
     (case b of (m, e) \<Rightarrow> if 0 \<le> e then m * 2 ^ nat e else - ((- m) div 2 ^ nat (- e)))"

definition getCentury_f64 :: "int \<Rightarrow> int option" where
  "getCentury_f64 y = map_option ceil_double (fl_div y 100)"

definition bval :: "binary64 \<Rightarrow> real" where
  "bval b = (case b of (m, e) \<Rightarrow> of_int m * 2 powi e)"

subsection \<open>The normalisation loop\<close>

lemma normalise_up:
  assumes "0 < n" "0 < d" "n < 2 ^ 53 * d"
  shows "\<exists>k. normalise n d e = Some (n * 2 ^ k, d, e - int k) \<and>
             2 ^ 52 * d \<le> n * 2 ^ k \<and> n * 2 ^ k < 2 ^ 53 * d"
  using assms
proof (induction "nat (2 ^ 52 * d - n)" arbitrary: n e rule: less_induct)
  case less
  show ?case
  proof (cases "n < 2 ^ 52 * d")
    case True
    have "nat (2 ^ 52 * d - 2 * n) < nat (2 ^ 52 * d - n)"
      using less.prems(1) True by simp
    moreover have "0 < 2 * n" "2 * n < 2 ^ 53 * d"
      using less.prems True by simp_all
    ultimately obtain k where
      k: "normalise (2 * n) d (e - 1) = Some (2 * n * 2 ^ k, d, e - 1 - int k)"
         "2 ^ 52 * d \<le> 2 * n * 2 ^ k" "2 * n * 2 ^ k < 2 ^ 53 * d"
      using less.hyps less.prems(2) by blast
    have "normalise n d e = Some (n * 2 ^ Suc k, d, e - int (Suc k))"
      using True k(1) by (simp add: normalise.simps [of n] algebra_simps)
    with k(2,3) show ?thesis
      by (metis mult.assoc mult.commute power_Suc)
  next
    case False
    with less.prems(3) have "normalise n d e = Some (n * 2 ^ 0, d, e - int 0)"
      by (simp add: normalise.simps [of n])
    with False less.prems(3) show ?thesis
      by (metis mult.right_neutral power_0 not_less)
  qed
qed

lemma normalise_down:
  assumes "0 < d" "2 ^ 52 * d \<le> n"
  shows "\<exists>n' d' e'. normalise n d e = Some (n', d', e') \<and> 2 ^ 52 * d' \<le> n' \<and> n' < 2 ^ 53 * d'"
  using assms
proof (induction "nat (n div d)" arbitrary: d e rule: less_induct)
  case less
  show ?case
  proof (cases "2 ^ 53 * d \<le> n")
    case True
    have "1 * d \<le> 2 ^ 53 * d"
      using less.prems(1) by (intro mult_right_mono) simp_all
    with True have "d \<le> n" by linarith
    then have "1 \<le> n div d"
      using zdiv_mono1 [of d n d] less.prems(1) by simp
    then have "nat (n div (2 * d)) < nat (n div d)"
      using int_div_less_self [of "n div d" 2] by (simp add: mult.commute zdiv_zmult2_eq)
    moreover have "0 < 2 * d" "2 ^ 52 * (2 * d) \<le> n"
      using less.prems(1) True by simp_all
    ultimately obtain n' d' e' where
      "normalise n (2 * d) (e + 1) = Some (n', d', e')" "2 ^ 52 * d' \<le> n'" "n' < 2 ^ 53 * d'"
      using less.hyps by blast
    with True less.prems(1) show ?thesis
      by (simp add: normalise.simps [of n])
  next
    case False
    with less.prems(2) show ?thesis
      by (simp add: normalise.simps [of n])
  qed
qed

lemma normalise_normal:
  assumes "0 < n" "0 < d"
  shows "\<exists>n' d' e'. normalise n d e = Some (n', d', e') \<and> 2 ^ 52 * d' \<le> n' \<and> n' < 2 ^ 53 * d'"
proof (cases "n < 2 ^ 53 * d")
  case True
  with assms show ?thesis by (blast dest: normalise_up)
next
  case False
  have "1 * d \<le> 2 * d" using assms(2) by simp
  with False assms(2) have "2 ^ 52 * d \<le> n" by simp
  with assms(2) show ?thesis by (rule normalise_down)
qed

subsection \<open>Rounding\<close>

lemma round_half_even_nearest:
  assumes "0 < d"
  shows "2 * \<bar>d * round_half_even n d - n\<bar> \<le> d"
proof -
  define q r where "q = n div d" and "r = n mod d"
  have n: "n = d * q + r" and r: "0 \<le> r" "r < d"
    using assms by (simp_all add: q_def r_def)
  show ?thesis
    unfolding round_half_even_def Let_def q_def [symmetric] r_def [symmetric]
    using n r by (simp add: distrib_left abs_if)
qed

lemma div_eq_of_bounds:
  fixes m P c :: int
  assumes "c * P \<le> m" "m < c * P + P"
  shows "m div P = c"
  using assms by (intro int_div_pos_eq [where r = "m - c * P"]) (simp_all add: algebra_simps)

lemma century_bounds:
  fixes y :: int
  shows "100 * ((y + 99) div 100 - 1) < y" "y \<le> 100 * ((y + 99) div 100)"
proof -
  have "100 * ((y + 99) div 100) \<le> y + 99" "y + 99 < 100 * ((y + 99) div 100) + 100"
    by simp_all
  then show "100 * ((y + 99) div 100 - 1) < y" "y \<le> 100 * ((y + 99) div 100)"
    by (simp_all add: algebra_simps)
qed

lemma pow2_ge_64:
  fixes k :: nat
  assumes "100 \<le> 2 * (2::int) ^ k"
  shows "64 \<le> (2::int) ^ k"
proof (rule ccontr)
  assume "\<not> 64 \<le> (2::int) ^ k"
  then have "k < 6"
    using power_increasing [of 6 k "2::int"] by (cases "6 \<le> k") simp_all
  then have "(2::int) ^ k \<le> 2 ^ 5"
    by (intro power_increasing) simp_all
  with assms show False by simp
qed

lemma ceil_fl_div_100:
  assumes y: "\<bar>y\<bar> \<le> 2 ^ 53"
  shows "map_option ceil_double (fl_div y 100) = Some ((y + 99) div 100)"
proof (cases "y = 0")
  case True
  then show ?thesis by (simp add: fl_div_def fl_round_def ceil_double_def)
next
  case False
  define a where "a = \<bar>y\<bar>"
  have a: "0 < a" "a < 2 ^ 53 * 100"
    using False y by (simp_all add: a_def)
  obtain k where nk: "normalise a 100 0 = Some (a * 2 ^ k, 100, 0 - int k)"
    and lo: "2 ^ 52 * 100 \<le> a * 2 ^ k"
    using normalise_up [OF a(1) _ a(2), of 0] by auto
  define P where "P = (2::int) ^ k"
  have "2 ^ 52 * 100 \<le> a * P"
    using lo by (simp add: P_def)
  also have "a * P \<le> 2 ^ 53 * P"
    using y by (simp add: a_def P_def mult_right_mono)
  finally have "100 \<le> 2 * P"
    by simp
  then have P: "64 \<le> P"
    unfolding P_def by (rule pow2_ge_64)
  then have k: "0 < k"
    by (cases k) (simp_all add: P_def)
  define m where "m = round_half_even (a * P) 100"
  have near: "a * P - 50 \<le> 100 * m" "100 * m \<le> a * P + 50"
    using round_half_even_nearest [of 100 "a * P"] by (simp_all add: m_def abs_le_iff)
  define c where "c = (y + 99) div 100"
  have c: "100 * (c - 1) + 1 \<le> y" "y \<le> 100 * c"
    using century_bounds [of y] by (simp_all add: c_def)
  have fl: "fl_div y 100 = Some (sgn y * m, - int k)"
    using nk False by (simp add: fl_div_def fl_round_def a_def m_def P_def)
  have h1: "y * P \<le> (100 * c) * P" "(100 * (c - 1) + 1) * P \<le> y * P"
    using c P by (simp_all add: mult_right_mono)
  have e: "(100 * c) * P = 100 * (c * P)" "(100 * (c - 1) + 1) * P = 100 * (c * P) - 99 * P"
    by (simp_all add: algebra_simps)
  show ?thesis
  proof (cases "0 < y")
    case True
    then have ay: "a * P = y * P" by (simp add: a_def)
    have "m < c * P + 1" "c * P - P < m"
      using near ay h1 e P by linarith+
    then have "(- c) * P \<le> - m" "- m < (- c) * P + P"
      by simp_all
    then have "(- m) div P = - c"
      by (rule div_eq_of_bounds)
    with True k show ?thesis
      by (simp add: fl ceil_double_def P_def c_def)
  next
    case False
    with \<open>y \<noteq> 0\<close> have neg: "y < 0" by simp
    then have ay: "a * P = - (y * P)" by (simp add: a_def)
    have "- (c * P) - 1 < m" "m < - (c * P) + P"
      using near ay h1 e P by linarith+
    then have "(- c) * P \<le> m" "m < (- c) * P + P"
      by simp_all
    then have "m div P = - c"
      by (rule div_eq_of_bounds)
    with neg k show ?thesis
      by (simp add: fl ceil_double_def P_def c_def)
  qed
qed

lemma round_half_even_normal:
  assumes d: "0 < d" and lo: "2 ^ 52 * d \<le> n" and hi: "n < 2 ^ 53 * d"
  shows "2 ^ 52 \<le> round_half_even n d \<and> round_half_even n d \<le> 2 ^ 53"
proof -
  define m where "m = round_half_even n d"
  have "2 * \<bar>d * m - n\<bar> \<le> d"
    unfolding m_def by (rule round_half_even_nearest [OF d])
  then have near: "2 * n - d \<le> 2 * (d * m) \<and> 2 * (d * m) \<le> 2 * n + d"
    by (auto simp: abs_if split: if_splits)
  have p: "(2::int) ^ 52 = 4503599627370496" "(2::int) ^ 53 = 9007199254740992"
    by simp_all
  have "2 ^ 52 \<le> m"
  proof (rule ccontr)
    assume "\<not> 2 ^ 52 \<le> m"
    then have "d * m \<le> d * (2 ^ 52 - 1)"
      using d by (intro mult_left_mono) simp_all
    moreover have "d * (2 ^ 52 - 1) = 2 ^ 52 * d - d"
      by (simp add: algebra_simps)
    ultimately show False
      using near lo d p by linarith
  qed
  moreover have "m \<le> 2 ^ 53"
  proof (rule ccontr)
    assume "\<not> m \<le> 2 ^ 53"
    then have "d * (2 ^ 53 + 1) \<le> d * m"
      using d by (intro mult_left_mono) simp_all
    moreover have "d * (2 ^ 53 + 1) = 2 ^ 53 * d + d"
      by (simp add: algebra_simps)
    ultimately show False
      using near hi d p by linarith
  qed
  ultimately show ?thesis
    by (simp add: m_def)
qed

subsection \<open>Values of binary64 pairs\<close>

lemma normalise_value:
  assumes ret: "normalise n d e = Some r"
  shows "0 < d \<longrightarrow> 0 < fst (snd r) \<and>
    of_int (fst r) / of_int (fst (snd r)) * (2::real) powi (snd (snd r)) = of_int n / of_int d * 2 powi e"
proof (rule normalise.raw_induct [where P = "\<lambda>n d e r. 0 < d \<longrightarrow> 0 < fst (snd r) \<and>
    of_int (fst r) / of_int (fst (snd r)) * (2::real) powi (snd (snd r)) = of_int n / of_int d * 2 powi e",
    OF _ ret])
  fix f n d e r
  assume IH: "\<And>n d e r. f n d e = Some r \<Longrightarrow> 0 < d \<longrightarrow> 0 < fst (snd r) \<and>
    of_int (fst r) / of_int (fst (snd r)) * (2::real) powi (snd (snd r)) = of_int n / of_int d * 2 powi e"
    and eq: "(if n < 2 ^ 52 * d then f (2 * n) d (e - 1)
      else if 2 ^ 53 * d \<le> n then f n (2 * d) (e + 1) else Some (n, d, e)) = Some r"
  show "0 < d \<longrightarrow> 0 < fst (snd r) \<and>
    of_int (fst r) / of_int (fst (snd r)) * (2::real) powi (snd (snd r)) = of_int n / of_int d * 2 powi e"
  proof (cases "n < 2 ^ 52 * d")
    case True
    with eq IH [of "2 * n" d "e - 1" r] show ?thesis
      by (simp add: power_int_diff)
  next
    case False
    show ?thesis
    proof (cases "2 ^ 53 * d \<le> n")
      case True
      with False eq IH [of n "2 * d" "e + 1" r] show ?thesis
        by (simp add: power_int_add)
    next
      case False': False
      with False eq show ?thesis by auto
    qed
  qed
qed

lemma pow2_nat_powi: "0 \<le> k \<Longrightarrow> (2::real) ^ nat k = 2 powi k"
  by (simp add: power_int_def)

lemma pow2_powi_ge2: "1 \<le> k \<Longrightarrow> 2 \<le> (2::real) powi k"
proof -
  assume k: "1 \<le> k"
  have "(2::real) = 2 powi 1" by simp
  also have "\<dots> \<le> 2 powi k"
    using k by (intro power_int_increasing) simp_all
  finally show ?thesis .
qed

lemma pow2_powi_le_quarter: "k \<le> - 2 \<Longrightarrow> (2::real) powi k \<le> 1 / 4"
proof -
  assume k: "k \<le> - 2"
  then have "(2::real) powi k \<le> 2 powi (- 2)"
    by (intro power_int_increasing) simp_all
  also have "(2::real) powi (- 2) = 1 / 4"
    by (simp add: power_int_minus inverse_eq_divide)
  finally show ?thesis .
qed

lemma round_half_even_real:
  assumes d: "0 < d"
  shows "\<bar>of_int (round_half_even n d) - of_int n / of_int d\<bar> \<le> (1 / 2 :: real)"
proof -
  define r where "r = round_half_even n d"
  have dr: "0 < (of_int d :: real)" using d by simp
  have "2 * \<bar>d * r - n\<bar> \<le> d"
    unfolding r_def by (rule round_half_even_nearest [OF d])
  then have "real_of_int (2 * \<bar>d * r - n\<bar>) \<le> real_of_int d"
    by (simp only: of_int_le_iff)
  then have le: "2 * \<bar>real_of_int (d * r - n)\<bar> \<le> real_of_int d"
    by (simp only: of_int_mult of_int_abs of_int_numeral)
  have "of_int r - of_int n / of_int d = real_of_int (d * r - n) / of_int d"
    using dr by (simp add: diff_divide_distrib)
  then have "\<bar>of_int r - of_int n / of_int d\<bar> = \<bar>real_of_int (d * r - n)\<bar> / of_int d"
    using dr by (simp only: abs_divide abs_of_pos)
  also have "\<dots> \<le> 1 / 2"
  proof -
    have "\<bar>real_of_int (d * r - n)\<bar> \<le> 1 / 2 * of_int d"
      using le by simp
    with dr show ?thesis by (simp only: pos_divide_le_eq)
  qed
  finally show ?thesis unfolding r_def .
qed

lemma fl_round_to_value:
  fixes p q e0 M E :: int
  assumes p: "0 < p" and q: "0 < q" and M: "2 ^ 52 \<le> M" "M < 2 ^ 53"
    and close: "(2 ^ 52 < M \<and> \<bar>of_int p / of_int q * 2 powi e0 - of_int M * 2 powi E\<bar> < (2::real) powi E / 2) \<or>
                \<bar>of_int p / of_int q * 2 powi e0 - of_int M * 2 powi E\<bar> < (2::real) powi E / 4"
  shows "\<exists>y. fl_round p q e0 = Some y \<and> bval y = of_int M * 2 powi E"
proof -
  obtain n' d' e' where nr: "normalise p q e0 = Some (n', d', e')"
    and lo: "2 ^ 52 * d' \<le> n'" and hi: "n' < 2 ^ 53 * d'"
    using normalise_normal [OF p q] by blast
  from normalise_value [OF nr] q have d': "0 < d'"
    and val: "of_int n' / of_int d' * (2::real) powi e' = of_int p / of_int q * 2 powi e0"
    by simp_all
  define m' where "m' = round_half_even n' d'"
  have fl: "fl_round p q e0 = Some (m', e')"
    using nr p by (simp add: fl_round_def m'_def)
  define u where "u = (of_int n' / of_int d' :: real)"
  have "(2::real) ^ 52 * of_int d' \<le> of_int n'" "of_int n' < (2::real) ^ 53 * of_int d'"
    using lo hi by (simp_all flip: of_int_le_iff of_int_less_iff)
  then have u: "2 ^ 52 \<le> u" "u < 2 ^ 53"
    using d' by (simp_all add: u_def field_simps)
  have near: "\<bar>of_int m' - u\<bar> \<le> 1 / 2"
    using round_half_even_real [OF d', of n'] by (simp add: m'_def u_def)
  define t where "t = of_int p / of_int q * 2 powi e0 / (2::real) powi E"
  have pE: "0 < (2::real) powi E" by simp
  have close': "(2 ^ 52 < M \<and> \<bar>t - of_int M\<bar> < 1 / 2) \<or> \<bar>t - of_int M\<bar> < 1 / 4"
  proof -
    have rt: "of_int p / of_int q * 2 powi e0 = t * (2::real) powi E"
      using pE by (simp add: t_def)
    have "of_int p / of_int q * 2 powi e0 - of_int M * 2 powi E = (t - of_int M) * (2::real) powi E"
      by (simp only: left_diff_distrib rt)
    then have eq: "\<bar>of_int p / of_int q * 2 powi e0 - of_int M * 2 powi E\<bar> = \<bar>t - of_int M\<bar> * (2::real) powi E"
      by (simp only: abs_mult abs_of_pos [OF pE])
    have "\<bar>t - of_int M\<bar> * 2 powi E < (2::real) powi E / 2 \<Longrightarrow> \<bar>t - of_int M\<bar> < 1 / 2"
      using mult_less_cancel_right_pos [OF pE, of "\<bar>t - of_int M\<bar>" "1 / 2"] by simp
    moreover have "\<bar>t - of_int M\<bar> * 2 powi E < (2::real) powi E / 4 \<Longrightarrow> \<bar>t - of_int M\<bar> < 1 / 4"
      using mult_less_cancel_right_pos [OF pE, of "\<bar>t - of_int M\<bar>" "1 / 4"] by simp
    ultimately show ?thesis
      using close unfolding eq by blast
  qed
  have tM: "\<bar>t - of_int M\<bar> < 1 / 2"
    using close' by linarith
  have ut: "t = u * 2 powi (e' - E)"
    using val pE by (simp add: t_def u_def power_int_diff field_simps flip: val)
  have "(of_int M :: real) < 2 ^ 53" "2 ^ 52 \<le> (of_int M :: real)"
    using M by (simp_all flip: of_int_le_iff of_int_less_iff)
  have "e' = E \<or> e' = E - 1"
  proof (rule ccontr)
    assume "\<not> (e' = E \<or> e' = E - 1)"
    then consider "1 \<le> e' - E" | "e' - E \<le> - 2" by linarith
    then show False
    proof cases
      case 1
      have "2 * u \<le> t"
        using pow2_powi_ge2 [OF 1] u ut by (simp add: mult_left_mono)
      with u tM M show False by simp
    next
      case 2
      have "t \<le> u / 4"
        using pow2_powi_le_quarter [OF 2] u ut by (simp add: mult_left_mono)
      with u tM M show False by simp
    qed
  qed
  then show ?thesis
  proof
    assume e: "e' = E"
    with ut have "t = u" by simp
    with near tM have "\<bar>of_int m' - of_int M\<bar> < (1::real)" by linarith
    then have "m' = M" by (simp flip: of_int_diff)
    with fl e show ?thesis by (simp add: bval_def)
  next
    assume e: "e' = E - 1"
    with ut have tu: "u = 2 * t" by (simp add: power_int_diff)
    have "t - of_int M < 1 / 2" "of_int M - t < 1 / 2"
      using tM [unfolded abs_less_iff] by linarith+
    with u tu have "(of_int M :: real) < 2 ^ 52 + 1" by simp
    then have "(of_int M :: real) < of_int (2 ^ 52 + 1 :: int)" by simp
    then have MM: "M = 2 ^ 52" using M by (simp only: of_int_less_iff)
    then have "\<not> 2 ^ 52 < M" by simp
    with close' have t4: "\<bar>t - of_int M\<bar> < 1 / 4" by blast
    have "(of_int M :: real) = 4503599627370496" using MM by simp
    with t4 [unfolded abs_less_iff] near [unfolded abs_le_iff] tu
    have "9007199254740991 < (of_int m' :: real)" "(of_int m' :: real) < 9007199254740993"
      by linarith+
    then have "m' = 2 ^ 53" by simp
    with fl e MM show ?thesis
      by (simp add: bval_def power_int_diff)
  qed
qed

lemma fl_round_returns:
  assumes "0 < d"
  shows "\<exists>m e'. fl_round x d e = Some (m, e') \<and> \<bar>m\<bar> \<le> 2 ^ 53 \<and> (x \<noteq> 0 \<longrightarrow> 2 ^ 52 \<le> \<bar>m\<bar>)"
proof (cases "x = 0")
  case True
  then show ?thesis by (simp add: fl_round_def)
next
  case False
  then have "0 < \<bar>x\<bar>" by simp
  then obtain n' d' e' where nd: "normalise \<bar>x\<bar> d e = Some (n', d', e')"
    and lo: "2 ^ 52 * d' \<le> n'" and hi: "n' < 2 ^ 53 * d'"
    using normalise_normal [OF _ assms] by blast
  have "2 ^ 52 * d' < 2 ^ 53 * d'"
    using lo hi by (rule le_less_trans)
  then have "0 < d'"
    by simp
  then have "2 ^ 52 \<le> round_half_even n' d' \<and> round_half_even n' d' \<le> 2 ^ 53"
    using lo hi by (rule round_half_even_normal)
  with False nd show ?thesis
    by (simp add: fl_round_def abs_mult abs_sgn_eq)
qed

subsection \<open>Properties\<close>

text \<open>C9. For every year of magnitude at most \<open>2^53\<close> (every safe integer, and
  \<open>2^53\<close> itself) the century the page computes in binary64,
  \<open>Math.ceil(year / 100)\<close> with a correctly rounded division, is the exact
  \<open>\<lceil>year / 100\<rceil>\<close> the other theories use.\<close>

theorem getCentury_f64_exact:
  "\<bar>y\<bar> \<le> 2 ^ 53 \<Longrightarrow> getCentury_f64 y = Some (getCentury y)"
  by (simp add: getCentury_f64_def ceil_fl_div_100 getCentury_eq_div)

theorem getCentury_f64_exact_witness:
  "getCentury_f64 1347 = Some 14 \<and> getCentury_f64 (- 9007199254740991) = Some (- 90071992547409)"
  using getCentury_f64_exact [of 1347] getCentury_f64_exact [of "- 9007199254740991"]
  by (simp add: getCentury_eq_div)

text \<open>The bound of C9 is needed: above \<open>2^53\<close> the division rounds visibly.
  The year \<open>25 * 2^62 + 2^14\<close> is an exact binary64 integer, and the page gives it the
  century \<open>2^60 + 256\<close>, while \<open>\<lceil>year / 100\<rceil> = 2^60 + 164\<close>.\<close>

lemma getCentury_f64_beyond_safe:
  "getCentury_f64 (25 * 2 ^ 62 + 2 ^ 14) = Some (2 ^ 60 + 256) \<and>
   getCentury (25 * 2 ^ 62 + 2 ^ 14) = 2 ^ 60 + 164"
  by (simp add: getCentury_f64_def fl_div_def fl_round_def normalise.simps round_half_even_def
      ceil_double_def getCentury_eq_div)

end
