(* ===== verification/NumberFormat.thy ===== *)
theory NumberFormat
  imports Binary64
begin

text \<open>
  ECMAScript's Number::toString for finite binary64 values, the conversion behind the
  template literal of line 267 (\<open>`${index * 0.1}s`\<close>). For a positive value \<open>x\<close>
  with decimal exponent \<open>n\<close> (\<open>10^(n-1) \<le> x < 10^n\<close>, \<open>dec_exp\<close>), the standard
  asks for the smallest digit count \<open>k\<close> for which some \<open>k\<close>-digit integer \<open>s\<close> has
  \<open>s * 10^(n - k)\<close> rounding back to \<open>x\<close> (\<open>dec_candidate\<close>), the closest such
  \<open>s\<close>, even on a tie (\<open>digits_at\<close>), searched from \<open>k = 1\<close> up to 17, which
  suffices for binary64 (\<open>shortest_digits\<close>). The digits are then laid out plainly, with
  leading zeros, or in exponential form (\<open>format_decimal\<close>), and negative values get
  a minus sign (\<open>number_to_string\<close>). \<open>parse_decimal\<close> reads such a string back
  as a significand and a power of ten. The lemmas show that 17 digits always suffice, so
  the conversion returns for every binary64 value, and that the printed string denotes a
  decimal whose binary64 value is the number printed.
\<close>

definition b64_frac :: "binary64 \<Rightarrow> int \<times> int" where
  "b64_frac b = (case b of (m, e) \<Rightarrow> if 0 \<le> e then (m * 2 ^ nat e, 1) else (m, 2 ^ nat (- e)))"

definition b64_same :: "binary64 \<Rightarrow> binary64 \<Rightarrow> bool" where
  "b64_same a b =
     (case a of (m1, e1) \<Rightarrow> case b of (m2, e2) \<Rightarrow>
        if e2 \<le> e1 then m1 * 2 ^ nat (e1 - e2) = m2 else m1 = m2 * 2 ^ nat (e2 - e1))"

definition dec_exp :: "int \<Rightarrow> int \<Rightarrow> int" where
  "dec_exp p q =
     (if q \<le> p then int (length (nat_digits (nat (p div q))))
      else 1 - int (length (nat_digits (nat ((q + p - 1) div p - 1)))))"

definition fl_dec :: "int \<Rightarrow> int \<Rightarrow> binary64 option" where
  "fl_dec s j = (if 0 \<le> j then fl_round (s * 10 ^ nat j) 1 0 else fl_round s (10 ^ nat (- j)) 0)"

definition dec_candidate :: "binary64 \<Rightarrow> int \<Rightarrow> nat \<Rightarrow> int \<Rightarrow> bool" where
  "dec_candidate x n k s =
     (10 ^ (k - 1) \<le> s \<and> s < 10 ^ k \<and>
      (case fl_dec s (n - int k) of None \<Rightarrow> False | Some y \<Rightarrow> b64_same y x))"

definition digits_at :: "binary64 \<Rightarrow> int \<Rightarrow> nat \<Rightarrow> int option" where
  "digits_at x n k =
     (case b64_frac x of (p, q) \<Rightarrow>
      let j = int k - n;
          N = (if 0 \<le> j then p * 10 ^ nat j else p);
          D = (if 0 \<le> j then q else q * 10 ^ nat (- j));
          lo = N div D; r = N mod D;
          ok_lo = dec_candidate x n k lo;
          ok_hi = (r \<noteq> 0 \<and> dec_candidate x n k (lo + 1))
      in if ok_lo \<and> ok_hi then
           Some (if 2 * r < D then lo else if D < 2 * r then lo + 1 else if even lo then lo else lo + 1)
         else if ok_lo then Some lo
         else if ok_hi then Some (lo + 1)
         else None)"

definition digits_pick :: "binary64 \<Rightarrow> int \<Rightarrow> nat \<Rightarrow> (int \<times> int) option" where
  "digits_pick x n k =
     (case b64_frac x of (p, q) \<Rightarrow>
      let j = int k - n;
          N = (if 0 \<le> j then p * 10 ^ nat j else p);
          D = (if 0 \<le> j then q else q * 10 ^ nat (- j));
          top = (10 :: int) ^ (k - 1);
          ok_top = dec_candidate x (n + 1) k top
      in case digits_at x n k of
           None \<Rightarrow> if ok_top then Some (top, n + 1) else None
         | Some s \<Rightarrow>
             if ok_top \<and> (10 ^ k * D - N < \<bar>s * D - N\<bar> \<or>
                           (10 ^ k * D - N = \<bar>s * D - N\<bar> \<and> even top \<and> odd s))
             then Some (top, n + 1) else Some (s, n))"

function shortest_digits :: "binary64 \<Rightarrow> int \<Rightarrow> nat \<Rightarrow> (int \<times> nat \<times> int) option" where
  "shortest_digits x n k =
     (if 17 < k then None
      else case digits_pick x n k of
             Some (s, n') \<Rightarrow> Some (s, k, n')
           | None \<Rightarrow> shortest_digits x n (Suc k))"
  by pat_completeness auto
termination
  by (relation "measure (\<lambda>(x, n, k). 18 - k)") auto

definition format_decimal :: "int \<Rightarrow> nat \<Rightarrow> int \<Rightarrow> jsstr" where
  "format_decimal s k n =
     (let ds = nat_digits (nat s) in
      if int k \<le> n \<and> n \<le> 21 then ds @ replicate (nat (n - int k)) 0x30
      else if 0 < n \<and> n \<le> 21 then take (nat n) ds @ [0x2E] @ drop (nat n) ds
      else if - 6 < n \<and> n \<le> 0 then [0x30, 0x2E] @ replicate (nat (- n)) 0x30 @ ds
      else
        (let ex = (if 0 < n - 1 then 0x2B else 0x2D) # nat_digits (nat \<bar>n - 1\<bar>) in
         if k = 1 then ds @ [0x65] @ ex else take 1 ds @ [0x2E] @ drop 1 ds @ [0x65] @ ex))"

definition number_to_string_pos :: "binary64 \<Rightarrow> jsstr option" where
  "number_to_string_pos x =
     (case b64_frac x of (p, q) \<Rightarrow>
        map_option (\<lambda>(s, k, n). format_decimal s k n) (shortest_digits x (dec_exp p q) 1))"

definition number_to_string :: "binary64 \<Rightarrow> jsstr option" where
  "number_to_string b =
     (case b of (m, e) \<Rightarrow>
        if m = 0 then Some [0x30]
        else if m < 0 then map_option (\<lambda>t. 0x2D # t) (number_to_string_pos (- m, e))
        else number_to_string_pos (m, e))"

definition parse_exponent :: "jsstr \<Rightarrow> int option" where
  "parse_exponent ex =
     (if ex = [] then Some 0
      else if tl ex \<noteq> [] \<and> hd (tl ex) = 0x2B then map_option int (parse_nat_acc 0 (tl (tl ex)))
      else if tl ex \<noteq> [] \<and> hd (tl ex) = 0x2D then map_option (\<lambda>v. - int v) (parse_nat_acc 0 (tl (tl ex)))
      else None)"

definition parse_unsigned :: "jsstr \<Rightarrow> (int \<times> int) option" where
  "parse_unsigned u =
     (let mant = takeWhile (\<lambda>c. c \<noteq> 0x65) u;
          ex = dropWhile (\<lambda>c. c \<noteq> 0x65) u;
          ip = takeWhile (\<lambda>c. c \<noteq> 0x2E) mant;
          fp = drop 1 (dropWhile (\<lambda>c. c \<noteq> 0x2E) mant)
      in case parse_nat_acc 0 (ip @ fp) of
           None \<Rightarrow> None
         | Some v \<Rightarrow> map_option (\<lambda>x. (int v, x - int (length fp))) (parse_exponent ex))"

definition parse_decimal :: "jsstr \<Rightarrow> (int \<times> int) option" where
  "parse_decimal str =
     (if str \<noteq> [] \<and> hd str = 0x2D then map_option (\<lambda>(v, j). (- v, j)) (parse_unsigned (tl str))
      else parse_unsigned str)"

lemmas digits_eval = digits_at_def b64_frac_def dec_candidate_def fl_dec_def fl_round_def
  normalise.simps round_half_even_def b64_same_def Let_def

lemmas format_eval = format_decimal_def nat_digits_small nat_digits_large digit_unit_def js_str_simps


subsection \<open>Soundness of the digit search\<close>

lemma digits_at_sound: "digits_at x n k = Some s \<Longrightarrow> dec_candidate x n k s"
  by (auto simp: digits_at_def Let_def split: prod.splits if_splits)

lemma digits_pick_sound: "digits_pick x n k = Some (s, n') \<Longrightarrow> dec_candidate x n' k s"
  by (auto simp: digits_pick_def Let_def digits_at_sound split: prod.splits option.splits if_splits)

lemma digits_pick_some: "digits_at x n k \<noteq> None \<Longrightarrow> digits_pick x n k \<noteq> None"
  by (auto simp: digits_pick_def Let_def split: prod.splits option.splits)

lemma shortest_digits_sound:
  "shortest_digits x n k = Some (s, k', n') \<Longrightarrow> dec_candidate x n' k' s"
proof (induction x n k rule: shortest_digits.induct)
  case (1 x n k)
  show ?case
  proof (cases "digits_pick x n k")
    case None
    with "1.prems" show ?thesis
      by (intro "1.IH") (simp_all split: if_splits)
  next
    case (Some t)
    with "1.prems" show ?thesis
      by (cases t) (auto simp: digits_pick_sound split: if_splits)
  qed
qed

subsection \<open>Digits\<close>

lemma set_nat_digits: "u \<in> set (nat_digits n) \<Longrightarrow> \<exists>d < 10. u = digit_unit d"
proof (induction n rule: nat_digits.induct)
  case (1 n)
  show ?case
  proof (cases "n < 10")
    case True
    with "1.prems" show ?thesis by auto
  next
    case False
    with "1.prems" have "u \<in> set (nat_digits (n div 10)) \<or> u = digit_unit (n mod 10)"
      by (auto simp: nat_digits_large)
    then show ?thesis
    proof
      assume "u \<in> set (nat_digits (n div 10))"
      with "1.IH" [OF False] show ?thesis .
    next
      assume "u = digit_unit (n mod 10)"
      then show ?thesis by (intro exI [of _ "n mod 10"]) simp
    qed
  qed
qed

lemma digit_unit_not_sep:
  "d < 10 \<Longrightarrow> digit_unit d \<noteq> 0x2E \<and> digit_unit d \<noteq> 0x65 \<and> digit_unit d \<noteq> 0x2D"
  using unat_digit_unit [of d] by auto

lemma nat_digits_no_sep:
  "u \<in> set (nat_digits n) \<Longrightarrow> u \<noteq> 0x2E \<and> u \<noteq> 0x65 \<and> u \<noteq> 0x2D"
proof -
  assume "u \<in> set (nat_digits n)"
  then obtain d where "d < 10" "u = digit_unit d"
    using set_nat_digits by blast
  then show ?thesis using digit_unit_not_sep by simp
qed

lemma length_nat_digits:
  "10 ^ (k - 1) \<le> n \<Longrightarrow> n < 10 ^ k \<Longrightarrow> length (nat_digits n) = k"
proof (induction n arbitrary: k rule: nat_digits.induct)
  case (1 n)
  have k0: "k \<noteq> 0"
    using "1.prems" by (cases k) simp_all
  show ?case
  proof (cases "n < 10")
    case True
    have "\<not> 2 \<le> k"
    proof
      assume "2 \<le> k"
      then have "(10::nat) ^ 1 \<le> 10 ^ (k - 1)"
        by (intro power_increasing) simp_all
      with "1.prems"(1) True show False by simp
    qed
    with k0 True show ?thesis by simp
  next
    case False
    have "\<not> k \<le> 1"
    proof
      assume "k \<le> 1"
      then have "(10::nat) ^ k \<le> 10 ^ 1"
        by (intro power_increasing) simp_all
      with "1.prems"(2) False show False by simp
    qed
    then obtain k' where k: "k = Suc (Suc k')"
      by (metis One_nat_def Suc_pred k0 less_Suc0 not_less_eq_eq not_less_zero linorder_not_less)
    have "10 ^ k' \<le> n div 10"
      using "1.prems"(1) k by (simp add: less_eq_div_iff_mult_less_eq mult.commute)
    moreover have "n div 10 < 10 ^ Suc k'"
      using "1.prems"(2) k by (simp add: div_less_iff_less_mult mult.commute)
    ultimately have "length (nat_digits (n div 10)) = Suc k'"
      using "1.IH" [OF False] by simp
    with False k show ?thesis
      by (simp add: nat_digits_large)
  qed
qed

subsection \<open>Reading the digits back\<close>

lemma parse_nat_acc_append:
  "parse_nat_acc acc (xs @ ys) = Option.bind (parse_nat_acc acc xs) (\<lambda>v. parse_nat_acc v ys)"
  by (induction xs arbitrary: acc) (simp_all split: option.split)

lemma parse_nat_acc_zeros: "parse_nat_acc acc (replicate z 0x30) = Some (acc * 10 ^ z)"
  by (induction z arbitrary: acc) (simp_all add: parse_digit_def)

lemma parse_nat_acc_leading_zeros:
  "parse_nat_acc 0 (replicate z 0x30 @ xs) = parse_nat_acc 0 xs"
  by (simp add: parse_nat_acc_append parse_nat_acc_zeros)

lemma parse_exponent_digits:
  "n \<noteq> 1 \<Longrightarrow>
   parse_exponent (0x65 # (if 0 < n - 1 then 0x2B else 0x2D) # nat_digits (nat \<bar>n - 1\<bar>)) = Some (n - 1)"
  by (simp add: parse_exponent_def parse_nat_digits)

lemma fl_dec_scaled: "0 \<le> j \<Longrightarrow> fl_dec (s * 10 ^ nat j) 0 = fl_dec s j"
  by (simp add: fl_dec_def)

lemma parse_format_decimal:
  fixes s :: int
  assumes lo: "10 ^ (k - 1) \<le> s" and hi: "s < 10 ^ k"
  shows "\<exists>s' j'. parse_unsigned (format_decimal s k n) = Some (s', j') \<and>
           fl_dec s' j' = fl_dec s (n - int k)"
proof -
  define ds where "ds = nat_digits (nat s)"
  have s_pos: "0 < s"
    using lo by (smt (verit) one_le_power)
  then have s_nat: "int (nat s) = s" by simp
  have "10 ^ (k - 1) \<le> nat s" "nat s < 10 ^ k"
    using lo hi s_pos by (simp_all add: le_nat_iff nat_less_iff)
  then have len: "length ds = k"
    unfolding ds_def by (rule length_nat_digits)
  have k0: "0 < k"
    using lo hi by (cases k) simp_all
  have parse_ds: "parse_nat_acc 0 ds = Some (nat s)"
    by (simp add: ds_def parse_nat_digits)
  have sep: "\<And>u. u \<in> set ds \<Longrightarrow> u \<noteq> 0x2E \<and> u \<noteq> 0x65 \<and> u \<noteq> 0x2D"
    unfolding ds_def by (rule nat_digits_no_sep)
  have sep_take: "\<And>u i. u \<in> set (take i ds) \<Longrightarrow> u \<noteq> 0x2E \<and> u \<noteq> 0x65"
    using sep by (blast dest: in_set_takeD)
  have sep_drop: "\<And>u i. u \<in> set (drop i ds) \<Longrightarrow> u \<noteq> 0x2E \<and> u \<noteq> 0x65"
    using sep by (blast dest: in_set_dropD)
  have tw_drop: "\<And>i. takeWhile (\<lambda>c. c \<noteq> 0x65) (drop i ds) = drop i ds"
      "\<And>i. takeWhile (\<lambda>c. c \<noteq> 0x2E) (drop i ds) = drop i ds"
    using sep_drop by (auto simp: takeWhile_eq_all_conv)
  have tw_ds: "takeWhile (\<lambda>c. c \<noteq> 0x65) ds = ds" "takeWhile (\<lambda>c. c \<noteq> 0x2E) ds = ds"
      "dropWhile (\<lambda>c. c \<noteq> 0x65) ds = []" "dropWhile (\<lambda>c. c \<noteq> 0x2E) ds = []"
    using sep by (auto simp: takeWhile_eq_all_conv dropWhile_eq_Nil_conv)
  have dw_drop: "\<And>i. dropWhile (\<lambda>c. c \<noteq> 0x65) (drop i ds) = []"
    using sep_drop by (auto simp: dropWhile_eq_Nil_conv)
  consider (A) "int k \<le> n \<and> n \<le> 21"
    | (B) "\<not> (int k \<le> n \<and> n \<le> 21)" "0 < n \<and> n \<le> 21"
    | (C) "\<not> (int k \<le> n \<and> n \<le> 21)" "\<not> (0 < n \<and> n \<le> 21)" "- 6 < n \<and> n \<le> 0"
    | (D) "\<not> (int k \<le> n \<and> n \<le> 21)" "\<not> (0 < n \<and> n \<le> 21)" "\<not> (- 6 < n \<and> n \<le> 0)"
    by blast
  then show ?thesis
  proof cases
    case A
    have "format_decimal s k n = ds @ replicate (nat (n - int k)) 0x30"
      using A by (simp add: format_decimal_def ds_def Let_def)
    moreover have "parse_unsigned (ds @ replicate (nat (n - int k)) 0x30) =
        Some (int (nat s * 10 ^ nat (n - int k)), 0)"
      using sep parse_ds
      by (auto simp: parse_unsigned_def parse_exponent_def takeWhile_eq_all_conv
          dropWhile_eq_Nil_conv parse_nat_acc_append parse_nat_acc_zeros)
    moreover have "fl_dec (int (nat s * 10 ^ nat (n - int k))) 0 = fl_dec s (n - int k)"
      using A s_nat by (simp add: fl_dec_def)
    ultimately show ?thesis by auto
  next
    case B
    define i where "i = nat n"
    have "format_decimal s k n = take i ds @ [0x2E] @ drop i ds"
      using B by (simp add: format_decimal_def ds_def Let_def i_def)
    moreover have "parse_unsigned (take i ds @ [0x2E] @ drop i ds) =
        Some (int (nat s), 0 - int (length (drop i ds)))"
      using sep_take parse_ds s_pos
      by (simp add: parse_unsigned_def parse_exponent_def takeWhile_append2 dropWhile_append2
          tw_drop dw_drop)
    moreover have "0 - int (length (drop i ds)) = n - int k"
      using B len by (simp add: i_def)
    ultimately show ?thesis using s_nat by auto
  next
    case C
    define z where "z = nat (- n)"
    have "format_decimal s k n = [0x30, 0x2E] @ replicate z 0x30 @ ds"
      using C by (simp add: format_decimal_def ds_def Let_def z_def)
    moreover have "parse_unsigned ([0x30, 0x2E] @ replicate z 0x30 @ ds) =
        Some (int (nat s), 0 - int (length (replicate z 0x30 @ ds)))"
    proof -
      have tz: "takeWhile (\<lambda>c. c \<noteq> 0x65) (replicate z 0x30 @ ds) = replicate z 0x30 @ ds"
        "dropWhile (\<lambda>c. c \<noteq> 0x65) (replicate z 0x30 @ ds) = []"
        using sep by (auto simp: takeWhile_eq_all_conv dropWhile_eq_Nil_conv)
      from parse_ds s_pos show ?thesis
        by (simp add: tz parse_unsigned_def parse_exponent_def parse_digit_def
            parse_nat_acc_leading_zeros)
    qed
    moreover have "0 - int (length (replicate z 0x30 @ ds)) = n - int k"
      using C len by (simp add: z_def)
    ultimately show ?thesis using s_nat by auto
  next
    case D
    define ex where "ex = (if 0 < n - 1 then 0x2B else 0x2D) # nat_digits (nat \<bar>n - 1\<bar>)"
    have n1: "n \<noteq> 1" using D by auto
    have pex: "parse_exponent (0x65 # ex) = Some (n - 1)"
      unfolding ex_def using n1 by (rule parse_exponent_digits)
    show ?thesis
    proof (cases "k = 1")
      case True
      have "format_decimal s k n = ds @ [0x65] @ ex"
        unfolding format_decimal_def Let_def ds_def [symmetric] ex_def [symmetric]
        using D True by (simp only: if_False if_True refl)
      moreover have "parse_unsigned (ds @ [0x65] @ ex) = Some (int (nat s), n - 1)"
        using sep parse_ds pex s_pos
        by (simp add: parse_unsigned_def takeWhile_append2 dropWhile_append2 tw_ds)
      ultimately show ?thesis using s_nat True by auto
    next
      case False
      have "format_decimal s k n = take 1 ds @ [0x2E] @ drop 1 ds @ [0x65] @ ex"
        unfolding format_decimal_def Let_def ds_def [symmetric] ex_def [symmetric]
        using D False by (simp only: if_False if_True)
      moreover have "parse_unsigned (take 1 ds @ [0x2E] @ drop 1 ds @ [0x65] @ ex) =
          Some (int (nat s), n - 1 - int (length (drop 1 ds)))"
        using sep_take sep_drop parse_ds pex s_pos
        by (simp add: parse_unsigned_def takeWhile_append2 dropWhile_append2)
      moreover have "n - 1 - int (length (drop 1 ds)) = n - int k"
        using len k0 by simp
      ultimately show ?thesis using s_nat by (metis (no_types, lifting))
    qed
  qed
qed

lemma format_decimal_hd:
  "format_decimal s k n \<noteq> [] \<and> hd (format_decimal s k n) \<noteq> 0x2D"
  using nat_digits_ne [of "nat s"] hd_nat_digits_not_minus [of "nat s"]
  by (auto simp: format_decimal_def Let_def hd_append)

subsection \<open>Signs\<close>

lemma fl_round_uminus: "fl_round (- x) d e = map_option (\<lambda>(m, e'). (- m, e')) (fl_round x d e)"
  by (cases "normalise \<bar>x\<bar> d e") (auto simp: fl_round_def)

lemma fl_dec_uminus: "fl_dec (- s) j = map_option (\<lambda>(m, e). (- m, e)) (fl_dec s j)"
  by (simp add: fl_dec_def fl_round_uminus flip: minus_mult_left)

lemma b64_same_uminus: "b64_same (- m1, e1) (- m2, e2) = b64_same (m1, e1) (m2, e2)"
  by (simp add: b64_same_def)

lemma number_to_string_pos_roundtrip:
  assumes "number_to_string_pos x = Some t"
  shows "t \<noteq> [] \<and> hd t \<noteq> 0x2D \<and>
         (\<exists>s j y. parse_unsigned t = Some (s, j) \<and> fl_dec s j = Some y \<and> b64_same y x)"
proof -
  obtain p q where pq: "b64_frac x = (p, q)" by (cases "b64_frac x")
  from assms pq obtain s k n where sd: "shortest_digits x (dec_exp p q) 1 = Some (s, k, n)"
    and t: "t = format_decimal s k n"
    by (auto simp: number_to_string_pos_def)
  from shortest_digits_sound [OF sd] obtain y where
    bounds: "10 ^ (k - 1) \<le> s" "s < 10 ^ k" and y: "fl_dec s (n - int k) = Some y" "b64_same y x"
    by (auto simp: dec_candidate_def split: option.splits)
  from parse_format_decimal [OF bounds, of n] y t format_decimal_hd show ?thesis
    by metis
qed

subsection \<open>Totality: seventeen digits suffice\<close>

text \<open>The search of \<open>shortest_digits\<close> stops at 17 digits. For a value \<open>m * 2^e\<close>
  with \<open>|m| \<le> 2^53\<close> the 17-digit decimal nearest to it is within
  \<open>v / (2 * 10^16)\<close> of the value \<open>v\<close>, less than half a unit in its last binary
  place (a quarter at the lower edge of a binade), so it rounds back to the value and
  \<open>digits_at\<close> finds a candidate at the latest at \<open>k = 17\<close>.\<close>

lemma b64_same_shift:
  assumes "e2 \<le> e1"
  shows "(of_int m1 * (2::real) powi e1 = of_int m2 * 2 powi e2) \<longleftrightarrow> m1 * 2 ^ nat (e1 - e2) = m2"
proof -
  have e: "(2::real) powi e1 = 2 ^ nat (e1 - e2) * 2 powi e2"
    using assms by (simp add: pow2_nat_powi flip: power_int_add)
  have "(of_int m1 * (2::real) powi e1 = of_int m2 * 2 powi e2) \<longleftrightarrow>
      (of_int m1 * 2 ^ nat (e1 - e2)) * (2::real) powi e2 = of_int m2 * 2 powi e2"
    by (simp add: e mult.assoc)
  also have "\<dots> \<longleftrightarrow> of_int m1 * 2 ^ nat (e1 - e2) = (of_int m2 :: real)"
    by simp
  also have "\<dots> \<longleftrightarrow> m1 * 2 ^ nat (e1 - e2) = m2"
    by (metis of_int_eq_iff of_int_mult of_int_numeral of_int_power)
  finally show ?thesis .
qed

lemma b64_same_iff: "b64_same a b \<longleftrightarrow> bval a = bval b"
proof -
  obtain m1 e1 m2 e2 where ab: "a = (m1, e1)" "b = (m2, e2)" by (cases a, cases b)
  show ?thesis
  proof (cases "e2 \<le> e1")
    case True
    then show ?thesis by (simp add: ab b64_same_def bval_def b64_same_shift)
  next
    case False
    then show ?thesis
      using b64_same_shift [of e1 e2 m2 m1] by (auto simp: ab b64_same_def bval_def)
  qed
qed

lemma nat_digits_bounds:
  "0 < n \<Longrightarrow> 10 ^ (length (nat_digits n) - 1) \<le> n \<and> n < 10 ^ length (nat_digits n)"
proof (induction n rule: nat_digits.induct)
  case (1 n)
  show ?case
  proof (cases "n < 10")
    case True
    with "1.prems" show ?thesis by simp
  next
    case False
    then have "0 < n div 10" by simp
    with "1.IH" False obtain L where L: "length (nat_digits (n div 10)) = Suc L"
      and lo: "10 ^ L \<le> n div 10" and hi: "n div 10 < 10 ^ Suc L"
      by (metis diff_Suc_1 length_greater_0_conv nat_digits_ne Suc_pred)
    have n: "n = 10 * (n div 10) + n mod 10" and r: "n mod 10 < 10" by simp_all
    have "10 ^ Suc L \<le> n" using lo n by simp
    moreover have "n < 10 ^ Suc (Suc L)" using hi n r by simp
    ultimately show ?thesis using False L by (simp add: nat_digits_large)
  qed
qed

lemma ten_powi_pred: "0 < L \<Longrightarrow> (10::real) powi (int L - 1) = 10 ^ (L - 1)"
  by (simp add: of_nat_diff flip: power_int_of_nat)

lemma if_chain_some:
  "A \<or> B \<Longrightarrow> (if A \<and> B then Some a else if A then Some b else if B then Some c else None) \<noteq> None"
  by auto

lemma digits_at_some:
  assumes pq: "b64_frac x = (p, q)" and j: "j = int k - n"
    and N: "N = (if 0 \<le> j then p * 10 ^ nat j else p)"
    and D: "D = (if 0 \<le> j then q else q * 10 ^ nat (- j))"
    and ok: "dec_candidate x n k (N div D) \<or> (N mod D \<noteq> 0 \<and> dec_candidate x n k (N div D + 1))"
  shows "digits_at x n k \<noteq> None"
  unfolding digits_at_def pq prod.case Let_def
  by (rule if_chain_some) (use ok in \<open>simp only: N D j\<close>)

lemma le_divide_of_int: "0 < q \<Longrightarrow> q * a \<le> p \<Longrightarrow> real_of_int a \<le> of_int p / of_int q"
  by (simp add: pos_le_divide_eq mult.commute flip: of_int_mult of_int_le_iff)

lemma divide_less_of_int: "0 < q \<Longrightarrow> p < q * b \<Longrightarrow> of_int p / of_int q < real_of_int b"
  by (simp add: pos_divide_less_eq mult.commute flip: of_int_mult of_int_less_iff)

lemma divide_less_inverse_of_int:
  "0 < q \<Longrightarrow> 0 < c \<Longrightarrow> p * c < q \<Longrightarrow> of_int p / of_int q < 1 / real_of_int c"
  by (simp add: divide_simps flip: of_int_mult of_int_less_iff)

lemma inverse_le_divide_of_int:
  "0 < q \<Longrightarrow> 0 < c \<Longrightarrow> q \<le> p * c \<Longrightarrow> 1 / real_of_int c \<le> of_int p / of_int q"
  by (simp add: divide_simps flip: of_int_mult of_int_le_iff)

lemma dec_exp_bounds:
  assumes p: "0 < p" and q: "0 < q"
  shows "(10::real) powi (dec_exp p q - 1) \<le> of_int p / of_int q \<and>
         of_int p / of_int q < (10::real) powi dec_exp p q"
proof (cases "q \<le> p")
  case True
  define a where "a = p div q"
  have a: "0 < a" using True q by (simp add: a_def pos_imp_zdiv_pos_iff)
  define L where "L = length (nat_digits (nat a))"
  have L0: "0 < L" by (simp add: L_def)
  have "10 ^ (L - 1) \<le> nat a" "nat a < 10 ^ L"
    using nat_digits_bounds [of "nat a"] a by (simp_all add: L_def)
  then have aL: "10 ^ (L - 1) \<le> a" "a + 1 \<le> 10 ^ L"
    using a by (simp_all add: le_nat_iff nat_less_iff)
  have "q * a + p mod q = p" by (simp add: a_def)
  moreover have "0 \<le> p mod q" "p mod q < q" using q by simp_all
  ultimately have pq: "q * a \<le> p" "p < q * a + q" by linarith+
  have "q * 10 ^ (L - 1) \<le> q * a" using aL(1) q by (intro mult_left_mono) simp_all
  with pq have "q * 10 ^ (L - 1) \<le> p" by linarith
  moreover have "q * (a + 1) \<le> q * 10 ^ L" using aL(2) q by (intro mult_left_mono) simp_all
  with pq have "p < q * 10 ^ L" by (simp add: distrib_left)
  ultimately have "(10::real) ^ (L - 1) \<le> of_int p / of_int q" "of_int p / of_int q < (10::real) ^ L"
    using le_divide_of_int [OF q] divide_less_of_int [OF q] by fastforce+
  moreover have "dec_exp p q = int L"
    using True by (simp add: dec_exp_def a_def L_def)
  ultimately show ?thesis using L0 by (simp add: ten_powi_pred)
next
  case False
  define t where "t = (q + p - 1) div p"
  have tp: "p * t - p < q" "q \<le> p * t"
  proof -
    have "q + p - 1 = p * t + (q + p - 1) mod p" by (simp add: t_def)
    moreover have "0 \<le> (q + p - 1) mod p" "(q + p - 1) mod p < p" using p by simp_all
    ultimately show "p * t - p < q" "q \<le> p * t" by linarith+
  qed
  define a where "a = t - 1"
  have a: "0 < a"
  proof (rule ccontr)
    assume "\<not> 0 < a"
    then have "p * t \<le> p * 1" using p by (intro mult_left_mono) (simp_all add: a_def)
    with tp False show False by linarith
  qed
  define L where "L = length (nat_digits (nat a))"
  have L0: "0 < L" by (simp add: L_def)
  have "10 ^ (L - 1) \<le> nat a" "nat a < 10 ^ L"
    using nat_digits_bounds [of "nat a"] a by (simp_all add: L_def)
  then have aL: "10 ^ (L - 1) \<le> a" "a + 1 \<le> 10 ^ L"
    using a by (simp_all add: le_nat_iff nat_less_iff)
  have pa: "p * a < q" "q \<le> p * (a + 1)"
    using tp by (simp_all add: a_def algebra_simps)
  have "p * 10 ^ (L - 1) \<le> p * a" using aL(1) p by (intro mult_left_mono) simp_all
  with pa have "p * 10 ^ (L - 1) < q" by linarith
  moreover have "p * (a + 1) \<le> p * 10 ^ L" using aL(2) p by (intro mult_left_mono) simp_all
  with pa have "q \<le> p * 10 ^ L" by linarith
  ultimately have "of_int p / of_int q < 1 / (10::real) ^ (L - 1)" "1 / (10::real) ^ L \<le> of_int p / of_int q"
    using divide_less_inverse_of_int [OF q, of "10 ^ (L - 1)" p]
      inverse_le_divide_of_int [OF q, of "10 ^ L" p] by simp_all
  moreover have "dec_exp p q = 1 - int L"
    using False by (simp add: dec_exp_def t_def a_def L_def)
  moreover have "(10::real) powi (1 - int L) = 1 / 10 ^ (L - 1)"
  proof -
    have "(10::real) powi (1 - int L) = inverse (10 powi (int L - 1))"
      by (simp flip: power_int_minus)
    with ten_powi_pred [OF L0] show ?thesis by (simp add: inverse_eq_divide)
  qed
  moreover have "(10::real) powi (1 - int L - 1) = 1 / 10 ^ L"
    by (simp add: power_int_minus inverse_eq_divide)
  ultimately show ?thesis
    by simp
qed

lemma b64_frac_value:
  assumes pq: "b64_frac (m, e) = (p, q)"
  shows "0 < q \<and> (0 < p \<longleftrightarrow> 0 < m) \<and> of_int p / of_int q = bval (m, e)"
proof (cases "0 \<le> e")
  case True
  with pq have "p = m * 2 ^ nat e" "q = 1" by (simp_all add: b64_frac_def)
  with True show ?thesis by (simp add: bval_def power_int_def zero_less_mult_iff)
next
  case False
  with pq have "p = m" "q = 2 ^ nat (- e)" by (simp_all add: b64_frac_def)
  moreover have "(2::real) powi e = 1 / 2 ^ nat (- e)"
    using False by (simp add: power_int_def power_one_over)
  ultimately have "of_int p / of_int q = bval (m, e)"
    by (simp add: bval_def)
  with \<open>p = m\<close> \<open>q = 2 ^ nat (- e)\<close> show ?thesis by simp
qed

lemma fl_dec_value:
  assumes s: "0 < s"
  shows "\<exists>P Q. 0 < P \<and> 0 < Q \<and> fl_dec s j = fl_round P Q 0 \<and>
           of_int P / of_int Q * (2::real) powi 0 = of_int s * 10 powi j"
proof (cases "0 \<le> j")
  case True
  then show ?thesis
    using s by (intro exI [of _ "s * 10 ^ nat j"] exI [of _ 1]) (simp add: fl_dec_def power_int_def)
next
  case False
  then have "(10::real) powi j = 1 / 10 ^ nat (- j)"
    by (simp add: power_int_def power_one_over)
  with False show ?thesis
    using s by (intro exI [of _ s] exI [of _ "10 ^ nat (- j)"]) (simp add: fl_dec_def)
qed

lemma candidate_close:
  assumes x: "bval x = of_int M * 2 powi E" and M: "2 ^ 52 \<le> M" "M < 2 ^ 53"
    and s: "10 ^ (k - 1) \<le> s" "s < 10 ^ k"
    and err: "\<bar>of_int s * 10 powi (n - int k) - bval x\<bar> \<le> bval x / (2 * 10 ^ 16)"
  shows "dec_candidate x n k s"
proof -
  have "0 < (10::int) ^ (k - 1)" by simp
  with s have s0: "0 < s" by linarith
  obtain P Q where P: "0 < P" and Q: "0 < Q" and fl: "fl_dec s (n - int k) = fl_round P Q 0"
    and PQ: "of_int P / of_int Q * (2::real) powi 0 = of_int s * 10 powi (n - int k)"
    using fl_dec_value [OF s0] by blast
  have pE: "0 < (2::real) powi E" by simp
  have Mr: "(2::real) ^ 52 \<le> of_int M" "of_int M < (2::real) ^ 53"
    using M by (simp_all flip: of_int_le_iff of_int_less_iff)
  have "of_int M * 2 powi E < (10::real) ^ 16 * 2 powi E"
    using Mr pE by (intro mult_strict_right_mono) simp_all
  then have half: "bval x / (2 * 10 ^ 16) < (2::real) powi E / 2"
    using x by (simp add: divide_simps)
  define er where "er = \<bar>of_int P / of_int Q * 2 powi 0 - of_int M * (2::real) powi E\<bar>"
  have er: "er \<le> bval x / (2 * 10 ^ 16)"
    using err PQ x by (simp add: er_def)
  have close: "(2 ^ 52 < M \<and> er < (2::real) powi E / 2) \<or> er < (2::real) powi E / 4"
  proof (cases "M = 2 ^ 52")
    case True
    have "bval x / (2 * 10 ^ 16) < (2::real) powi E / 4"
      using x pE True by (simp add: divide_simps)
    with er show ?thesis by linarith
  next
    case False
    with M er half show ?thesis by linarith
  qed
  obtain y where "fl_round P Q 0 = Some y" and "bval y = of_int M * 2 powi E"
    using fl_round_to_value [OF P Q M close [unfolded er_def]] by blast
  with s fl x show ?thesis
    by (simp add: dec_candidate_def b64_same_iff)
qed

lemma scale_err:
  fixes t v s c :: real
  assumes t: "t = v * 10 powi j" and c: "0 < c" and st: "\<bar>s - t\<bar> \<le> t / c"
  shows "\<bar>s * 10 powi (- j) - v\<bar> \<le> v / c"
proof -
  have p: "0 < (10::real) powi (- j)" by simp
  have v: "v = t * 10 powi (- j)"
    using t by (simp add: power_int_minus field_simps)
  have "s * 10 powi (- j) - v = (s - t) * 10 powi (- j)"
    by (simp add: v left_diff_distrib)
  then have "\<bar>s * 10 powi (- j) - v\<bar> = \<bar>s - t\<bar> * 10 powi (- j)"
    using p by (simp add: abs_mult)
  also have "\<dots> \<le> t / c * 10 powi (- j)"
    using mult_right_mono [OF st, of "10 powi (- j)"] p by simp
  finally show ?thesis by (simp add: v)
qed

lemma digits_at_17:
  assumes pq: "b64_frac x = (p, q)" and p: "0 < p" and q: "0 < q"
    and v: "of_int p / of_int q = bval x"
    and x: "bval x = of_int M * 2 powi E" and M: "2 ^ 52 \<le> M" "M < 2 ^ 53"
  shows "digits_at x (dec_exp p q) 17 \<noteq> None"
proof -
  define n where "n = dec_exp p q"
  define j where "j = 17 - n"
  define N where "N = (if 0 \<le> j then p * 10 ^ nat j else p)"
  define D where "D = (if 0 \<le> j then q else q * 10 ^ nat (- j))"
  define lo where "lo = N div D"
  define r where "r = N mod D"
  define t where "t = (of_int N / of_int D :: real)"
  have some: "dec_candidate x n 17 lo \<or> (r \<noteq> 0 \<and> dec_candidate x n 17 (lo + 1)) \<Longrightarrow>
      digits_at x n 17 \<noteq> None"
    using digits_at_some [OF pq _ N_def D_def, of 17 n] unfolding lo_def r_def j_def by simp
  have D: "0 < D" using q by (simp add: D_def)
  have tv: "t = bval x * 10 powi j"
    unfolding v [symmetric]
  proof (cases "0 \<le> j")
    case True
    then have "(10::real) powi j = 10 ^ nat j" by (simp add: power_int_def)
    with True show "t = of_int p / of_int q * 10 powi j" by (simp add: t_def N_def D_def)
  next
    case False
    then have "(10::real) powi j = 1 / 10 ^ nat (- j)" by (simp add: power_int_def power_one_over)
    with False show "t = of_int p / of_int q * 10 powi j" by (simp add: t_def N_def D_def)
  qed
  have "(10::real) powi (n - 1) \<le> bval x" "bval x < 10 powi n"
    using dec_exp_bounds [OF p q] v by (simp_all add: n_def)
  moreover have "(10::real) powi (n - 1) * 10 powi j = 10 ^ 16" "(10::real) powi n * 10 powi j = 10 ^ 17"
    by (simp_all add: j_def flip: power_int_add)
  ultimately have tb: "10 ^ 16 \<le> t" "t < 10 ^ 17"
    using mult_right_mono [of "10 powi (n - 1)" "bval x" "(10::real) powi j"]
      mult_strict_right_mono [of "bval x" "10 powi n" "(10::real) powi j"]
    by (simp_all add: tv)
  have lo: "lo = \<lfloor>t\<rfloor>"
    by (simp add: lo_def t_def floor_divide_of_int_eq)
  have frac: "of_int r / of_int D = t - of_int lo"
    using D by (simp add: r_def lo_def t_def field_simps flip: minus_div_mult_eq_mod)
  have lob: "10 ^ 16 \<le> lo" "lo < 10 ^ 17"
    using tb by (simp_all add: lo le_floor_iff floor_less_iff)
  have fl: "of_int lo \<le> t" "t < of_int lo + 1"
    by (simp_all add: lo)
  have xpos: "0 < bval x" using v p q by (simp flip: v)
  have cand: "\<bar>of_int s - t\<bar> \<le> t / (2 * 10 ^ 16) \<Longrightarrow> 10 ^ 16 \<le> s \<Longrightarrow> s < 10 ^ 17 \<Longrightarrow>
      dec_candidate x n 17 s" for s
    using candidate_close [OF x M, of 17 s n] scale_err [OF tv, of "2 * 10 ^ 16" "of_int s"]
    by (simp add: j_def)
  show ?thesis
    unfolding n_def [symmetric]
  proof (rule some)
    show "dec_candidate x n 17 lo \<or> r \<noteq> 0 \<and> dec_candidate x n 17 (lo + 1)"
    proof (cases "t - of_int lo \<le> 1 / 2 \<or> lo + 1 = 10 ^ 17")
      case True
      then have "\<bar>of_int lo - t\<bar> \<le> t / (2 * 10 ^ 16)"
      proof
        assume "t - of_int lo \<le> 1 / 2"
        with fl tb show ?thesis by simp
      next
        assume "lo + 1 = 10 ^ 17"
        then have "(of_int lo :: real) = 10 ^ 17 - 1" by (simp flip: of_int_eq_iff)
        with fl tb show ?thesis by simp
      qed
      with lob show ?thesis by (simp add: cand)
    next
      case False
      then have "r \<noteq> 0" using frac by auto
      moreover have "\<bar>of_int (lo + 1) - t\<bar> \<le> t / (2 * 10 ^ 16)"
        using False fl tb by simp
      ultimately show ?thesis using False lob by (simp add: cand)
    qed
  qed
qed

lemma shortest_digits_some:
  "k \<le> 17 \<Longrightarrow> digits_at x n 17 \<noteq> None \<Longrightarrow> shortest_digits x n k \<noteq> None"
proof (induction x n k rule: shortest_digits.induct)
  case (1 x n k)
  show ?case
  proof (cases "digits_pick x n k")
    case None
    with "1.prems" digits_pick_some [of x n k] have k: "Suc k \<le> 17" by (cases "k = 17") auto
    with "1.prems" None have "shortest_digits x n k = shortest_digits x n (Suc k)"
      by (subst shortest_digits.simps) simp
    with "1.IH" [OF _ None k] "1.prems" show ?thesis by simp
  next
    case (Some s)
    with "1.prems" show ?thesis by (subst shortest_digits.simps) (simp split: prod.split)
  qed
qed

lemma normal_rep:
  assumes m: "0 < m" "m \<le> 2 ^ 53"
  shows "\<exists>M E. 2 ^ 52 \<le> M \<and> M < 2 ^ 53 \<and> bval (m, e) = of_int M * 2 powi E"
proof (cases "m = 2 ^ 53")
  case True
  then have "bval (m, e) = of_int (2 ^ 52) * 2 powi (e + 1)"
    by (simp add: bval_def power_int_add)
  then show ?thesis by fastforce
next
  case False
  with m obtain k where nr: "normalise m 1 e = Some (m * 2 ^ k, 1, e - int k)"
    and b: "2 ^ 52 \<le> m * 2 ^ k" "m * 2 ^ k < 2 ^ 53"
    using normalise_up [of m 1 e] by auto
  from normalise_value [OF nr] have "bval (m, e) = of_int (m * 2 ^ k) * 2 powi (e - int k)"
    by (auto simp: bval_def)
  with b show ?thesis by blast
qed

lemma number_to_string_pos_some:
  assumes m: "0 < m" "m \<le> 2 ^ 53"
  shows "number_to_string_pos (m, e) \<noteq> None"
proof -
  obtain p q where pq: "b64_frac (m, e) = (p, q)" by (cases "b64_frac (m, e)")
  with b64_frac_value [OF pq] m have p: "0 < p" and q: "0 < q"
    and v: "of_int p / of_int q = bval (m, e)" by simp_all
  obtain M E where M: "2 ^ 52 \<le> M" "M < 2 ^ 53" and x: "bval (m, e) = of_int M * 2 powi E"
    using normal_rep [OF m] by blast
  have "shortest_digits (m, e) (dec_exp p q) 1 \<noteq> None"
    using digits_at_17 [OF pq p q v x M] by (intro shortest_digits_some) simp_all
  then obtain r where "shortest_digits (m, e) (dec_exp p q) 1 = Some r" by blast
  then show ?thesis by (simp add: number_to_string_pos_def pq Let_def del: shortest_digits.simps)
qed

lemma number_to_string_some:
  "\<bar>m\<bar> \<le> 2 ^ 53 \<Longrightarrow> number_to_string (m, e) \<noteq> None"
  using number_to_string_pos_some [of m e] number_to_string_pos_some [of "- m" e]
  by (auto simp: number_to_string_def)

text \<open>The decimal exponent is not always the value's own: the double nearest
  \<open>10^23\<close> is \<open>99999999999999991611392\<close>, and the shortest decimal that reads back
  as it is \<open>10^23\<close>, one digit at the next exponent, which the search picks up
  through \<open>digits_pick\<close>.\<close>

lemma number_to_string_1e23:
  "number_to_string (5960464477539062, 24) = Some (js_str ''1e+23'')"
proof -
  have pq: "b64_frac (5960464477539062, 24) = (99999999999999991611392, 1)"
    by (simp add: b64_frac_def)
  have n: "dec_exp 99999999999999991611392 1 = 23"
    by (simp add: dec_exp_def nat_digits_small nat_digits_large)
  have lo: "digits_at (5960464477539062, 24) 23 1 = None"
    by (simp add: digits_eval cong: option.case_cong_weak)
  have top: "dec_candidate (5960464477539062, 24) 24 1 1"
    by (simp add: digits_eval cong: option.case_cong_weak)
  have "digits_pick (5960464477539062, 24) 23 1 = Some (1, 24)"
    using lo top by (simp add: digits_pick_def pq Let_def)
  then have "shortest_digits (5960464477539062, 24) 23 1 = Some (1, 1, 24)"
    by (subst shortest_digits.simps) simp
  moreover have "format_decimal 1 1 24 = js_str ''1e+23''"
    by (simp add: format_eval)
  ultimately show ?thesis
    using pq n by (simp add: number_to_string_def number_to_string_pos_def del: shortest_digits.simps)
qed

subsection \<open>Round trip\<close>

lemma number_to_string_roundtrip:
  assumes "number_to_string x = Some str"
  shows "\<exists>s j y. parse_decimal str = Some (s, j) \<and> fl_dec s j = Some y \<and> b64_same y x"
proof -
  obtain m e where x: "x = (m, e)" by (cases x)
  consider (zero) "m = 0" | (neg) "m < 0" | (pos) "0 < m" by linarith
  then show ?thesis
  proof cases
    case zero
    with assms x have "str = [0x30]" by (simp add: number_to_string_def)
    with zero x show ?thesis
      by (simp add: parse_decimal_def parse_unsigned_def parse_exponent_def parse_digit_def
          fl_dec_def fl_round_def b64_same_def)
  next
    case neg
    with assms x obtain t where t: "number_to_string_pos (- m, e) = Some t" and str: "str = 0x2D # t"
      by (auto simp: number_to_string_def)
    from number_to_string_pos_roundtrip [OF t] obtain s j y where
      "parse_unsigned t = Some (s, j)" "fl_dec s j = Some y" "b64_same y (- m, e)"
      by blast
    then have "parse_decimal str = Some (- s, j) \<and> fl_dec (- s) j = Some (- fst y, snd y) \<and>
        b64_same (- fst y, snd y) x"
      using str x b64_same_uminus [of "fst y" "snd y" "- m" e]
      by (simp add: parse_decimal_def fl_dec_uminus case_prod_beta)
    then show ?thesis by blast
  next
    case pos
    with assms x have t: "number_to_string_pos (m, e) = Some str"
      by (simp add: number_to_string_def)
    from number_to_string_pos_roundtrip [OF t] x show ?thesis
      by (simp add: parse_decimal_def)
  qed
qed

subsection \<open>Properties\<close>

text \<open>Number::toString is total on binary64 values and round-trips: for every value
  \<open>m * 2^e\<close> with \<open>|m| \<le> 2^53\<close> the model returns a string, and that string reads
  back (sign, digits, decimal point, exponent) as a decimal \<open>s * 10^j\<close> whose nearest
  binary64 value is the value printed, in each of the four layouts of the standard, for
  zero and for negative values.\<close>

lemma number_to_string_total_roundtrip:
  assumes "\<bar>m\<bar> \<le> 2 ^ 53"
  shows "\<exists>str s j y. number_to_string (m, e) = Some str \<and> parse_decimal str = Some (s, j) \<and>
           fl_dec s j = Some y \<and> b64_same y (m, e)"
proof -
  obtain str where "number_to_string (m, e) = Some str"
    using number_to_string_some [OF assms] by blast
  with number_to_string_roundtrip show ?thesis by blast
qed

end
