(* ===== verification/AnimationDelay.thy ===== *)
theory AnimationDelay
  imports View NumberFormat
begin

text \<open>
  The style of a card (src/src/pages/Index.tsx, lines 266--269) is the object
  \<open>{animationDelay: `${index * 0.1}s`, animation: "fade-in 0.5s ease-out forwards"}\<close>.
  The delay text is the binary64 product of the card's position and the literal
  \<open>0.1\<close> (\<open>fl_div 1 10\<close>, the double nearest to \<open>1/10\<close>), rounded by
  \<open>fl_mul_int\<close> and converted by Number::toString (\<open>NumberFormat\<close>).
  When a card is mounted, React sets the declarations of the style object one after the
  other, in the object's key order. The computed style follows CSS: \<open>animationDelay\<close>
  sets \<open>animation-delay\<close>, and the \<open>animation\<close> shorthand resets every animation
  longhand. Of its time values the first is the duration and the second the delay, and
  a time value that is absent takes its initial value \<open>0s\<close>. Browser and CSS are not
  part of the repository: \<open>anim_style\<close>, \<open>set_declaration\<close> and
  \<open>applied_style\<close> follow the CSS Animations specification for the two properties the
  page writes. Updates of a mounted card's style, where React writes only the changed
  declarations, are not modelled.
\<close>

definition fl_mul_int :: "int \<Rightarrow> binary64 \<Rightarrow> binary64 option" where
  "fl_mul_int i b = (case b of (m, e) \<Rightarrow> fl_round (i * m) 1 e)"

definition animation_delay :: "nat \<Rightarrow> jsstr option" where
  "animation_delay index =
     Option.bind (fl_div 1 10) (\<lambda>c.
       Option.bind (fl_mul_int (int index) c) (\<lambda>v.
         map_option (\<lambda>t. t @ js_str ''s'') (number_to_string v)))"

definition card_style :: "card_view \<Rightarrow> (jsstr \<times> jsstr) list option" where
  "card_style c =
     map_option (\<lambda>t. [(js_str ''animationDelay'', t),
                      (js_str ''animation'', js_str ''fade-in 0.5s ease-out forwards'')])
       (animation_delay (card_index c))"

record anim_style =
  anim_duration :: jsstr
  anim_delay :: jsstr

definition anim_initial :: anim_style where
  "anim_initial = \<lparr>anim_duration = js_str ''0s'', anim_delay = js_str ''0s''\<rparr>"

fun split_acc :: "jsstr \<Rightarrow> jsstr \<Rightarrow> jsstr list" where
  "split_acc cur [] = (if cur = [] then [] else [cur])"
| "split_acc cur (c # cs) =
     (if c = 0x20 then (if cur = [] then split_acc [] cs else cur # split_acc [] cs)
      else split_acc (cur @ [c]) cs)"

definition split_spaces :: "jsstr \<Rightarrow> jsstr list" where
  "split_spaces u = split_acc [] u"

definition is_time :: "jsstr \<Rightarrow> bool" where
  "is_time u =
     (u \<noteq> [] \<and> last u = 0x73 \<and> butlast u \<noteq> [] \<and>
      list_all (\<lambda>c. (0x30 \<le> c \<and> c \<le> 0x39) \<or> c = 0x2E) (butlast u))"

definition set_declaration :: "anim_style \<Rightarrow> jsstr \<times> jsstr \<Rightarrow> anim_style" where
  "set_declaration st decl =
     (case decl of (prop, v) \<Rightarrow>
        if prop = js_str ''animationDelay'' then st\<lparr>anim_delay := v\<rparr>
        else if prop = js_str ''animationDuration'' then st\<lparr>anim_duration := v\<rparr>
        else if prop = js_str ''animation'' then
          (let ts = filter is_time (split_spaces v) in
           st\<lparr>anim_duration := (case ts of [] \<Rightarrow> js_str ''0s'' | d # _ \<Rightarrow> d),
              anim_delay := (case ts of _ # d # _ \<Rightarrow> d | _ \<Rightarrow> js_str ''0s'')\<rparr>)
        else st)"

definition applied_style :: "(jsstr \<times> jsstr) list \<Rightarrow> anim_style" where
  "applied_style decls = foldl set_declaration anim_initial decls"

subsection \<open>The delay text is always produced\<close>

lemma fl_point_one: "fl_div 1 10 = Some (7205759403792794, - 56)"
  by (simp add: fl_div_def fl_round_def normalise.simps round_half_even_def)

lemma animation_delay_some: "\<exists>t. animation_delay index = Some t"
proof -
  obtain m e where r: "fl_round (int index * 7205759403792794) 1 (- 56) = Some (m, e)"
    and m: "\<bar>m\<bar> \<le> 2 ^ 53"
    using fl_round_returns [of 1 "int index * 7205759403792794" "- 56"] by auto
  obtain str where "number_to_string (m, e) = Some str"
    using number_to_string_some [OF m, of e] by blast
  with r show ?thesis
    by (simp add: animation_delay_def fl_point_one fl_mul_int_def)
qed

subsection \<open>The shorthand the page writes\<close>

lemma fade_in_shorthand:
  "filter is_time (split_spaces (js_str ''fade-in 0.5s ease-out forwards'')) = [js_str ''0.5s'']"
  by (simp add: split_spaces_def is_time_def js_str_simps)

lemma declaration_names_differ:
  "js_str ''animation'' \<noteq> js_str ''animationDelay''"
  "js_str ''animation'' \<noteq> js_str ''animationDuration''"
  by (simp_all add: js_str_simps)

subsection \<open>Properties\<close>

text \<open>C10. The staggered fade-in has no effect: for every card, whatever its position, the
  style React applies when the card is mounted has the duration \<open>0.5s\<close> and the delay
  \<open>0s\<close>. The \<open>animation\<close> shorthand, written after \<open>animationDelay\<close>, resets
  the delay that \<open>`${index * 0.1}s`\<close> set, so all cards fade in at once.\<close>

theorem card_animation_delay_zero:
  "map_option applied_style (card_style c) =
     Some \<lparr>anim_duration = js_str ''0.5s'', anim_delay = js_str ''0s''\<rparr>"
proof -
  obtain t where "animation_delay (card_index c) = Some t"
    using animation_delay_some by blast
  then show ?thesis
    by (simp add: card_style_def applied_style_def set_declaration_def anim_initial_def
        declaration_names_differ fade_in_shorthand)
qed

end
