(* ===== verification/Spec2Isabelle.thy ===== *)
theory Spec2Isabelle
  imports AnimationDelay
begin

text \<open>
  \<^bold>\<open>A verification model of the pandemic-history page.\<close>
  The repository is one React component, \<open>Index\<close> in src/src/pages/Index.tsx. It keeps a
  constant array of eleven \<open>Disease\<close> records (lines 9--143), two pieces of UI state
  (\<open>selectedDisease\<close>, \<open>filterCentury\<close>, lines 146--147) changed by three click
  handlers, and derives on every render the century of a year (\<open>getCentury\<close>), the
  visible records (\<open>filteredDiseases\<close>), the list of centuries for the filter buttons
  (\<open>centuries\<close>), badge colours and labels, and three severity counts (lines 150--184,
  367--397). The markup (lines 186--414) shows these values, binds the handlers and gives
  each card an animation style; the QR dialog shows the page's own URL.

  \<^bold>\<open>Theories.\<close>
  \<^item> \<open>Prelude\<close>: JavaScript strings as lists of UTF-16 code units (\<open>jsstr\<close>, a
    \<open>16 word list\<close>, ordered lexicographically as \<open>sort()\<close> compares strings); generic
    list lemmas.
  \<^item> \<open>JsRuntime\<close>: the built-ins the logic calls. \<open>num_to_string\<close> is
    \<open>Number.prototype.toString\<close> on integers of magnitude below \<open>10^21\<close> (plain
    decimal digits; the page passes centuries 6 to 21 and years up to 2019),
    \<open>array_from_set\<close> is \<open>Array.from(new Set(xs))\<close> (insertion order) and
    \<open>js_sort_default\<close> is \<open>sort()\<close> without a comparator, a stable sort keyed by the
    string form; \<open>js_sort_default_unique\<close> shows that every engine conforming to the
    standard returns the same list on distinct keys.
  \<^item> \<open>Disease\<close>: the \<open>Disease\<close> interface as a record (the field \<open>id\<close> is \<open>id'\<close>,
    \<open>id\<close> being HOL's identity), the severity union as a datatype with \<open>severity_str\<close>
    for its run-time strings, the eleven records field by field (text as code units, each
    transliterated in a comment) and \<open>diseases\<close>, with distinct identifiers.
  \<^item> \<open>Century\<close>: \<open>getCentury\<close> (\<open>Math.ceil(year / 100)\<close> over the reals),
    \<open>filteredDiseases\<close> and \<open>centuries\<close>. Filtering by a century's string keeps the
    records of that century (C1), the whole list is shown exactly under "all" (C2), and
    the list is empty exactly for filter values no button produces (C17).
  \<^item> \<open>Binary64\<close>: the same \<open>getCentury\<close> on JavaScript numbers. \<open>fl_div\<close> is the
    correctly rounded binary64 quotient: \<open>normalise\<close> scales the exact quotient into
    \<open>[2^52, 2^53)\<close> and \<open>round_half_even\<close> rounds it to an integer significand;
    \<open>ceil_double\<close> is \<open>Math.ceil\<close> and \<open>getCentury_f64\<close> composes them. The page's
    century is the exact one for \<open>|year| \<le> 2^53\<close> (C9); beyond that bound it is not
    (\<open>getCentury_f64_beyond_safe\<close>). \<open>fl_round_returns\<close> bounds the significand
    of every rounding, and \<open>bval\<close>, the real value of a pair, is the abstraction of the
    number printer's proofs (\<open>fl_round_to_value\<close>).
  \<^item> \<open>NumberFormat\<close>: ECMAScript's Number::toString on binary64 values
    (\<open>number_to_string\<close>). For each digit count \<open>k\<close> from 1 to 17 it looks for a
    \<open>k\<close>-digit significand \<open>s\<close> with \<open>s * 10^(n - k)\<close> reading back as the value,
    at the value's decimal exponent \<open>n\<close> (the closest such \<open>s\<close>, even on a tie,
    \<open>digits_at\<close>) and at \<open>n + 1\<close>, where the only candidate below the next
    exponent's range is \<open>10^n\<close> itself (\<open>digits_pick\<close>, closest of the two); the
    first \<open>k\<close> with a candidate wins (\<open>shortest_digits\<close>). A candidate at a lower
    exponent would put \<open>10^(n-1)\<close> in the value's rounding interval, where the
    one-digit candidate at \<open>n\<close> is found first. The digits are laid out plainly, with
    leading zeros or in exponential form (\<open>format_decimal\<close>). The lemmas show that the
    17-digit bound suffices, so the conversion returns for every value \<open>m * 2^e\<close>
    with \<open>|m| \<le> 2^53\<close>, that the printed string reads back as the value
    (\<open>number_to_string_total_roundtrip\<close>), and that the double nearest \<open>10^23\<close>
    prints as \<open>1e+23\<close> (\<open>number_to_string_1e23\<close>).
  \<^item> \<open>AnimationDelay\<close>: the card's style object (lines 266--269): the delay text
    \<open>`${index * 0.1}s`\<close> (\<open>fl_mul_int\<close>, \<open>number_to_string\<close>; produced for
    every index, \<open>animation_delay_some\<close>) followed by the \<open>animation\<close> shorthand
    (\<open>card_style\<close>), and the style React applies when a card is mounted
    (\<open>applied_style\<close>, the declarations set in key order with the CSS meaning of the
    shorthand). Every card's applied delay is \<open>0s\<close> (C10).
  \<^item> \<open>Severity\<close>: \<open>getSeverityColor\<close>, \<open>getSeverityLabel\<close> (the default label is
    unreachable from a record and the labels are distinct, C15; both defaults are taken
    exactly for strings that are no tag, C16) and \<open>severity_count\<close>.
  \<^item> \<open>Browser\<close>: the state record \<open>page_state\<close>, the \<open>event\<close>s the page binds (the
    "all" button, a century button, a card), \<open>step\<close> (the three handlers),
    \<open>enabled\<close> (the control is rendered), the inductive \<open>reachable\<close>, the executable
    \<open>run\<close> of an event sequence, and the invariant \<open>page_inv\<close>. The reachable
    states are exactly the invariant's (C3), the list is never empty (C4), a card click
    toggles the selection (C5). From every reachable state two clicks expand any record
    (C13) or restore the initial state (C14).
  \<^item> \<open>View\<close>: \<open>render\<close> gives the filter buttons, the cards, the statistics and the QR
    value for a URL and a state: at most one card is expanded (C6) and, in a reachable
    state, it is the selected record's (C11); exactly one button is highlighted (C12).
  \<^item> This theory: the specification's model (spec.md, section 4.1) as \<open>spec_state\<close> and
    \<open>spec_step\<close> (\<open>selectRecord\<close>, \<open>setFilter\<close>), \<open>visibleRecords\<close> and the ascending
    \<open>distinctCenturies\<close>, with the abstraction \<open>abs_state\<close> (the selected record's
    identifier; the filter string read back by \<open>parse_int\<close>). C7 is the forward
    simulation of one enabled step, C8 its lifting to runs from the initial state.

  \<^bold>\<open>Findings.\<close> The comparator-less \<open>sort()\<close> orders the centuries as strings, so the
  6th-century button comes after the 21st (\<open>filter_buttons_order\<close>,
  \<open>centuries_vs_spec\<close>), where the specification requires ascending order. The
  specification's expected counts (5 critical, 4 high, 1 moderate, "summing to 11") do not
  match the data, which has 6 critical records (\<open>severity_counts_dataset\<close>). The
  specification's test that selecting a record twice restores the selection fails when
  another record is selected (\<open>toggle_twice_not_restoring\<close>). The specification's
  \<open>computeCentury(y) = ceil(y / 100)\<close> "for all years" holds of the code only up to
  \<open>|y| \<le> 2^53\<close> (C9). The card's \<open>animation\<close> shorthand, written after
  \<open>animationDelay\<close>, resets the delay: the staggered fade-in never happens (C10).
  These lemmas on the fixed data record the findings; the claims are the general
  properties.

  \<^bold>\<open>Choices and limits.\<close> Years are integers. \<open>Century\<close> takes \<open>year / 100\<close>
  exactly, and \<open>Binary64\<close> shows that this is what the binary64 division gives for every
  year of magnitude at most \<open>2^53\<close>. The binary64 model has no subnormals, infinities or
  NaN, since no year and no card index produces them. A JavaScript \<open>-0\<close> from
  \<open>Math.ceil\<close> prints as \<open>"0"\<close>, as the integer 0 does here. The one loop that may
  not return is \<open>normalise\<close>, for a zero numerator. It is a
  \<open>partial_function (option)\<close>, and \<open>fl_round_returns\<close> proves that it returns for
  every positive divisor, which is all the model passes it. No fuel is needed. The search
  of \<open>shortest_digits\<close> is bounded by 17 digits, which suffices for every binary64 value.
  Every other recursion is structural or on \<open>n div 10\<close>. React is modelled by its
  effect on the state: each click runs the handler of the current render, and React
  renders again before the next click, so a click is one \<open>step\<close>. The style of a card is
  modelled as React applies it when the card is mounted; later updates of a mounted
  card's style are not. Not modelled: the QR image (\<open>qrcode.react\<close>), the UI library's
  Dialog, Card, Badge, Separator and Icon, class names and layout. The URL is a
  parameter of \<open>render\<close>: the code reads \<open>window.location.href\<close> without a guard.

  \<^bold>\<open>Plan.\<close> Modelled so far: the dataset, the derived values, the state machine of
  the two UI fields, the rendered view, the specification's model and the simulation,
  the binary64 arithmetic of \<open>getCentury\<close>, Number::toString and the animation style.
  Still to come: the Browser and View results stated over any dataset with distinct
  identifiers, with the page's array discharging that interface.
\<close>

section \<open>The specification's model of the page\<close>

datatype filter_value = FilterAll | FilterCentury int

record spec_state =
  selectedId :: "jsstr option"
  activeFilter :: filter_value

datatype spec_op = SelectRecord jsstr | SetFilter filter_value

definition spec_init :: spec_state where
  "spec_init = \<lparr>selectedId = None, activeFilter = FilterAll\<rparr>"

fun spec_step :: "spec_state \<Rightarrow> spec_op \<Rightarrow> spec_state" where
  "spec_step t (SelectRecord i) = t\<lparr>selectedId := (if selectedId t = Some i then None else Some i)\<rparr>"
| "spec_step t (SetFilter v) = t\<lparr>activeFilter := v\<rparr>"

definition computeCentury :: "int \<Rightarrow> int" where
  "computeCentury y = \<lceil>real_of_int y / 100\<rceil>"

fun visibleRecords :: "filter_value \<Rightarrow> disease list" where
  "visibleRecords FilterAll = diseases"
| "visibleRecords (FilterCentury c) = filter (\<lambda>d. computeCentury (year d) = c) diseases"

definition distinctCenturies :: "int list" where
  "distinctCenturies = sort (remdups (map (\<lambda>d. computeCentury (year d)) diseases))"

definition abs_filter :: "jsstr \<Rightarrow> filter_value" where
  "abs_filter fc = (case parse_int fc of None \<Rightarrow> FilterAll | Some c \<Rightarrow> FilterCentury c)"

definition abs_state :: "page_state \<Rightarrow> spec_state" where
  "abs_state s = \<lparr>selectedId = map_option id' (selectedDisease s), activeFilter = abs_filter (filterCentury s)\<rparr>"

fun abs_event :: "event \<Rightarrow> spec_op" where
  "abs_event ClickAll = SetFilter FilterAll"
| "abs_event (ClickCentury c) = SetFilter (FilterCentury c)"
| "abs_event (ClickCard d) = SelectRecord (id' d)"

section \<open>Refinement\<close>

lemma computeCentury_getCentury: "computeCentury = getCentury"
  by (simp add: fun_eq_iff computeCentury_def getCentury_def)

lemma abs_filter_all: "abs_filter (js_str ''all'') = FilterAll"
  by (simp add: abs_filter_def parse_int_all)

lemma abs_filter_century: "abs_filter (num_to_string c) = FilterCentury c"
  by (simp add: abs_filter_def parse_int_num_to_string)

lemma abs_init: "abs_state init_state = spec_init"
  by (simp add: abs_state_def init_state_def spec_init_def abs_filter_all)

lemma visible_abs:
  "page_inv s \<Longrightarrow> visibleRecords (activeFilter (abs_state s)) = filteredDiseases (filterCentury s)"
  by (auto simp: page_inv_def abs_state_def abs_filter_all abs_filter_century
      filteredDiseases_def computeCentury_getCentury)

lemma selected_id_step:
  assumes "page_inv s" and "d \<in> set diseases"
  shows "map_option id' (if is_selected (selectedDisease s) d then None else Some d) =
         (if map_option id' (selectedDisease s) = Some (id' d) then None else Some (id' d))"
  using assms by (auto simp: page_inv_def is_selected_def split: option.split)

lemma step_abs:
  assumes "page_inv s" and "enabled s e"
  shows "abs_state (step s e) = spec_step (abs_state s) (abs_event e)"
proof (cases e)
  case (ClickCard d)
  with assms(2) have "d \<in> set diseases"
    using filteredDiseases_subset by (auto simp: enabled_def)
  with ClickCard assms(1) show ?thesis
    by (simp add: abs_state_def selected_id_step)
qed (simp_all add: abs_state_def abs_filter_all abs_filter_century)

lemma run_abs:
  "page_inv s \<Longrightarrow> run s es = Some t \<Longrightarrow> abs_state t = fold (\<lambda>e a. spec_step a (abs_event e)) es (abs_state s)"
proof (induction es arbitrary: s)
  case Nil
  then show ?case by simp
next
  case (Cons e es)
  then have en: "enabled s e" and r: "run (step s e) es = Some t"
    by (simp_all split: if_splits)
  have "page_inv (step s e)" using Cons.prems(1) en by (rule page_inv_step)
  with r Cons.IH have "abs_state t = fold (\<lambda>e a. spec_step a (abs_event e)) es (abs_state (step s e))"
    by blast
  with Cons.prems(1) en show ?case by (simp add: step_abs)
qed

subsection \<open>Properties\<close>

text \<open>C7. The page implements the specification's model: in every reachable state, each
  click the page offers moves the abstract state (the selected identifier and the
  active filter, the string read back as a century) as the specification's
  \<open>selectRecord\<close> or \<open>setFilter\<close> does, and the cards shown are the specification's
  \<open>visibleRecords\<close> of the abstract filter.\<close>

theorem page_refines_spec:
  assumes "reachable s" and "enabled s e"
  shows "abs_state (step s e) = spec_step (abs_state s) (abs_event e) \<and>
         visibleRecords (activeFilter (abs_state s)) = filteredDiseases (filterCentury s)"
proof
  from assms(1) have inv: "page_inv s" by (rule reachable_inv)
  show "abs_state (step s e) = spec_step (abs_state s) (abs_event e)"
  proof (cases e)
    case (ClickCard d)
    with assms(2) have "d \<in> set diseases"
      using filteredDiseases_subset by (auto simp: enabled_def)
    with ClickCard inv show ?thesis
      by (simp add: abs_state_def selected_id_step)
  qed (simp_all add: abs_state_def abs_filter_all abs_filter_century)
  from inv show "visibleRecords (activeFilter (abs_state s)) = filteredDiseases (filterCentury s)"
    by (rule visible_abs)
qed

theorem page_refines_spec_witness:
  "reachable init_state \<and> enabled init_state (ClickCentury 14) \<and>
   abs_state (step init_state (ClickCentury 14)) = spec_step (abs_state init_state) (SetFilter (FilterCentury 14))"
proof -
  have e: "enabled init_state (ClickCentury 14)"
    by (simp add: enabled_def page_simps)
  show ?thesis using page_refines_spec [OF reachable.init e] reachable.init e by simp
qed

text \<open>C8. Over a whole sequence of clicks from the initial state, the abstract state
  reached is the specification's state after the corresponding operations.\<close>

theorem run_refines_spec:
  "run init_state es = Some t \<Longrightarrow> abs_state t = fold (\<lambda>e a. spec_step a (abs_event e)) es spec_init"
  using run_abs [OF page_inv_init] abs_init by simp

theorem run_refines_spec_witness:
  "run init_state [ClickCard disease_3, ClickCentury 16] = Some (step (step init_state (ClickCard disease_3)) (ClickCentury 16)) \<and>
   selectedId (abs_state (step (step init_state (ClickCard disease_3)) (ClickCentury 16))) = Some (js_str ''3'')"
proof -
  have r: "run init_state [ClickCard disease_3, ClickCentury 16] =
      Some (step (step init_state (ClickCard disease_3)) (ClickCentury 16))"
    by (simp add: enabled_def init_state_def filteredDiseases_def diseases_def page_simps is_selected_def)
  show ?thesis using run_refines_spec [OF r] r by (simp add: spec_init_def)
qed

text \<open>The filter row lists the same centuries as the specification's
  \<open>distinctCenturies\<close>, but not in its ascending order.\<close>

lemma centuries_vs_spec: "mset centuries = mset distinctCenturies \<and> centuries \<noteq> distinctCenturies"
proof -
  have d: "distinctCenturies = [6, 14, 16, 19, 20, 21]"
    by (simp add: distinctCenturies_def computeCentury_getCentury diseases_centuries)
  show ?thesis unfolding d centuries_eval by simp
qed

text \<open>The specification's test that selecting a record twice restores the previous
  selection does not hold for the page (nor for the specification's own
  \<open>selectRecord\<close>): with record "3" selected, two clicks on record "5" leave nothing
  selected.\<close>

lemma toggle_twice_not_restoring:
  "\<exists>s d. reachable s \<and> d \<in> set (filteredDiseases (filterCentury s)) \<and>
     selectedDisease (step (step s (ClickCard d)) (ClickCard d)) \<noteq> selectedDisease s"
proof -
  let ?s = "step init_state (ClickCard disease_3)"
  have "enabled init_state (ClickCard disease_3)"
    by (simp add: enabled_def init_state_def filteredDiseases_def diseases_def)
  with reachable.init have r: "reachable ?s" by (rule reachable.click)
  have v: "disease_5 \<in> set (filteredDiseases (filterCentury ?s))"
    by (simp add: init_state_def filteredDiseases_def diseases_def)
  have "selectedDisease (step (step ?s (ClickCard disease_5)) (ClickCard disease_5)) \<noteq> selectedDisease ?s"
    by (simp add: init_state_def is_selected_def)
  with r v show ?thesis by blast
qed

end
